theory Spec2Isabelle
  imports Complex_Main "HOL-Library.Log_Nat"
begin

section \<open>The token store\<close>

text \<open>
  The module \<open>setpass/model.py\<close> (the class \<open>model.User\<close> and the database session
  \<open>model.db.session\<close>) is used by \<open>setpass/api.py\<close> but is not among the sources, so
  the definitions of this section follow the specification's data model and its
  Token Store contract. Timestamps are integers counting microseconds, the resolution
  of Python's \<open>datetime\<close>.
\<close>

record User =
  user_id :: string
  token :: string
  pin :: string
  password :: string
  attempts :: int
  updated_at :: int

text \<open>The table of reset requests, as the committed rows of the database.\<close>

type_synonym store = "User list"

text \<open>
  Modelled from the spec: \<open>model.User.find(token=...)\<close> is missing;
  \<open>findByToken(token) -> Reset Request | absent\<close>.
\<close>

definition User_find_token :: "string \<Rightarrow> store \<Rightarrow> User option" where
  "User_find_token tok st = List.find (\<lambda>r. token r = tok) st"

text \<open>
  Modelled from the spec: \<open>model.User.find(user_id=...)\<close> is missing;
  \<open>findByUserId(user_id) -> Reset Request | absent\<close>.
\<close>

definition User_find_user_id :: "string \<Rightarrow> store \<Rightarrow> User option" where
  "User_find_user_id uid st = List.find (\<lambda>r. user_id r = uid) st"

text \<open>
  Modelled from the spec: the constructor \<open>model.User(user_id, token, pin, password)\<close> is
  missing; a new record is created with \<open>attempts = 0\<close> and \<open>updated_at\<close> set at creation.
\<close>

definition new_User :: "int \<Rightarrow> string \<Rightarrow> string \<Rightarrow> string \<Rightarrow> string \<Rightarrow> User" where
  "new_User now uid tok p pw =
     \<lparr>user_id = uid, token = tok, pin = p, password = pw, attempts = 0, updated_at = now\<rparr>"

text \<open>
  Modelled from the spec: the method \<open>User.update_timestamp_and_attempts\<close> is missing;
  re-provisioning always resets \<open>attempts\<close> to 0 and refreshes \<open>updated_at\<close>.
\<close>

definition update_timestamp_and_attempts :: "int \<Rightarrow> User \<Rightarrow> User" where
  "update_timestamp_and_attempts now user = user\<lparr>updated_at := now, attempts := 0\<rparr>"

text \<open>
  Modelled from the spec: \<open>model.db.session.commit()\<close> after attributes of a loaded
  object were assigned. The row that held the object \<open>old\<close> holds \<open>new\<close> afterwards;
  every other row is as it was.
\<close>

fun commit_update :: "User \<Rightarrow> User \<Rightarrow> store \<Rightarrow> store" where
  "commit_update old new [] = []"
| "commit_update old new (r # rs) =
     (if r = old then new # rs else r # commit_update old new rs)"

text \<open>
  Modelled from the spec: \<open>model.db.session.add(user)\<close> followed by \<open>commit()\<close>.
\<close>

definition commit_add :: "User \<Rightarrow> store \<Rightarrow> store" where
  "commit_add user st = st @ [user]"

text \<open>
  Modelled from the spec: \<open>model.db.session.delete(user)\<close> followed by \<open>commit()\<close>;
  \<open>delete(request)\<close> removes the record.
\<close>

definition commit_delete :: "User \<Rightarrow> store \<Rightarrow> store" where
  "commit_delete user st = remove1 user st"

text \<open>
  The data model's invariants: at most one reset request per \<open>user_id\<close>, and tokens
  unique across all live records.
\<close>

definition wf_store :: "store \<Rightarrow> bool" where
  "wf_store st \<longleftrightarrow> distinct (map user_id st) \<and> distinct (map token st)"

section \<open>Exceptions, configuration and the identity provider\<close>

text \<open>
  The exceptions of \<open>setpass.exception\<close> that \<open>api.py\<close> raises and catches, and the
  exceptions of Python and of the libraries that can pass through it.
\<close>

datatype error =
    TokenNotFoundException
  | TokenExpiredException
  | WrongPinException
  | OpenStackError string
  | AccountLocked
  | KeyError string
  | TypeError
  | ValueError
  | BadRequestKeyError string
  | KeystoneauthError string

text \<open>What \<open>sess.get_token()\<close> does for a given admin token.\<close>

datatype get_token_outcome = GotToken | RaisesUnauthorized | GetTokenRaises string

text \<open>
  What \<open>sess.post(url, ...)\<close> does: a response with its \<open>status_code\<close> and \<open>text\<close>,
  or an exception of the library.
\<close>

datatype post_outcome = Replied int string | PostRaises string

text \<open>
  \<open>CONF\<close> (the options \<open>api.py\<close> reads for the token lifecycle) and the two calls to
  the identity provider. \<open>sess_post uid old new\<close> is the POST to
  \<open>auth_url/users/uid/password\<close> on a session authenticated as \<open>uid\<close> with \<open>old\<close>.
\<close>

record env =
  max_attempts :: int
  token_expiration :: int
  sess_get_token :: "string \<Rightarrow> get_token_outcome"
  sess_post :: "string \<Rightarrow> string \<Rightarrow> string \<Rightarrow> post_outcome"

datatype Response = Response (response: string) (status: int)

section \<open>Requests\<close>

text \<open>
  The value \<open>json.loads\<close> returns. The values of an object's keys are strings, the
  type of the record's columns.
\<close>

datatype json =
    JObj "(string \<times> string) list"
  | JArr "json list"
  | JStr string
  | JNum int
  | JBool bool
  | JNull

text \<open>Python's \<open>sub in s\<close> on strings.\<close>

fun startswith :: "string \<Rightarrow> string \<Rightarrow> bool" where
  "startswith s [] = True"
| "startswith [] (c # cs) = False"
| "startswith (d # ds) (c # cs) = (d = c \<and> startswith ds cs)"

fun str_contains :: "string \<Rightarrow> string \<Rightarrow> bool" where
  "str_contains [] sub = (sub = [])"
| "str_contains (d # ds) sub = (startswith (d # ds) sub \<or> str_contains ds sub)"

text \<open>Python's \<open>k in payload\<close> for a string \<open>k\<close>.\<close>

fun py_contains :: "string \<Rightarrow> json \<Rightarrow> error + bool" where
  "py_contains k (JObj kvs) = Inr (k \<in> set (map fst kvs))"
| "py_contains k (JArr xs) = Inr (JStr k \<in> set xs)"
| "py_contains k (JStr s) = Inr (str_contains s k)"
| "py_contains k (JNum n) = Inl TypeError"
| "py_contains k (JBool b) = Inl TypeError"
| "py_contains k JNull = Inl TypeError"

text \<open>Python's \<open>payload[k]\<close> for a string \<open>k\<close>.\<close>

fun py_getitem :: "json \<Rightarrow> string \<Rightarrow> error + string" where
  "py_getitem (JObj kvs) k = (case map_of kvs k of None \<Rightarrow> Inl (KeyError k) | Some v \<Rightarrow> Inr v)"
| "py_getitem (JArr xs) k = Inl TypeError"
| "py_getitem (JStr s) k = Inl TypeError"
| "py_getitem (JNum n) k = Inl TypeError"
| "py_getitem (JBool b) k = Inl TypeError"
| "py_getitem JNull k = Inl TypeError"

text \<open>
  A request: the query parameters, the form fields, the headers (their names in lower
  case, as the lookup of a header ignores case), and the body as
  \<open>json.loads(request.data)\<close> reads it (\<open>None\<close> when it raises \<open>ValueError\<close>).
\<close>

record request =
  args :: "(string \<times> string) list"
  form :: "(string \<times> string) list"
  headers :: "(string \<times> string) list"
  data :: "json option"

section \<open>Durations in seconds\<close>

text \<open>
  \<open>timedelta.total_seconds()\<close> divides the duration in microseconds by \<open>10**6\<close> with a
  correctly rounded true division: its value is the double nearest to the quotient, a
  tie going to the even significand. A double is modelled by the rational it denotes. A
  nonzero \<open>x\<close> with \<open>2^e \<le> |x| < 2^(e+1)\<close> is rounded to a multiple of \<open>2^(e-52)\<close>, the
  spacing of the doubles of that binade. The exponent range of the doubles plays no
  role: a \<open>timedelta\<close> is below \<open>10^9\<close> days, so the quotient is 0 or lies between
  \<open>10^-6\<close> and \<open>10^14\<close> in absolute value.
\<close>

definition round_half_even :: "rat \<Rightarrow> int" where
  "round_half_even y =
     (let f = \<lfloor>y\<rfloor>; r = y - of_int f
      in if r < 1 / 2 then f else if 1 / 2 < r then f + 1 else if even f then f else f + 1)"

text \<open>The exponent \<open>e\<close> with \<open>2^e \<le> x < 2^(e+1)\<close>, for \<open>x > 0\<close>.\<close>

definition binade :: "rat \<Rightarrow> int" where
  "binade x = (if 1 \<le> x then bitlen \<lfloor>x\<rfloor> - 1 else - bitlen (\<lceil>1 / x\<rceil> - 1))"

definition round_double :: "rat \<Rightarrow> rat" where
  "round_double x =
     (if x = 0 then 0
      else let ulp = 2 powi (binade \<bar>x\<bar> - 52)
           in of_int (round_half_even (x / ulp)) * ulp)"

text \<open>\<open>delta.total_seconds()\<close> of a \<open>timedelta\<close> of \<open>us\<close> microseconds.\<close>

definition total_seconds :: "int \<Rightarrow> rat" where
  "total_seconds us = round_double (of_int us / 1000000)"

section \<open>The reset workflow of \<open>setpass/api.py\<close>\<close>

text \<open>
  Each function takes the store and returns its result, or the exception it raises,
  together with the store the database holds afterwards.
\<close>

text \<open>\<open>_set_openstack_password(user_id, old_password, new_password)\<close>\<close>

definition priv_set_openstack_password :: "env \<Rightarrow> string \<Rightarrow> string \<Rightarrow> string \<Rightarrow> error + bool" where
  "priv_set_openstack_password conf uid old_password new_password =
     (case sess_post conf uid old_password new_password of
        Replied status_code txt \<Rightarrow>
          if 200 \<le> status_code \<and> status_code < 300 then Inr True
          else Inl (OpenStackError txt)
      | PostRaises e \<Rightarrow> Inl (KeystoneauthError e))"

text \<open>\<open>_check_admin_token(token)\<close>\<close>

definition priv_check_admin_token :: "env \<Rightarrow> string \<Rightarrow> error + bool" where
  "priv_check_admin_token conf tok =
     (case sess_get_token conf tok of
        GotToken \<Rightarrow> Inr True
      | RaisesUnauthorized \<Rightarrow> Inr False
      | GetTokenRaises e \<Rightarrow> Inl (KeystoneauthError e))"

text \<open>\<open>_increase_attempts(user)\<close>: the increment, then the commit.\<close>

definition priv_increase_attempts :: "User \<Rightarrow> store \<Rightarrow> store" where
  "priv_increase_attempts user st = commit_update user (user\<lparr>attempts := attempts user + 1\<rparr>) st"

text \<open>
  \<open>_set_password(token, pin, password)\<close> at the time \<open>now\<close> that
  \<open>datetime.datetime.utcnow()\<close> returns. \<open>delta\<close> is a duration of \<open>now - updated_at\<close>
  microseconds, and \<open>delta.total_seconds() > CONF.token_expiration\<close> compares the float
  with the integer by their exact values.
\<close>

definition priv_set_password ::
  "env \<Rightarrow> int \<Rightarrow> string \<Rightarrow> string \<Rightarrow> string \<Rightarrow> store \<Rightarrow> (error + unit) \<times> store" where
  "priv_set_password conf now tok p new_password st =
     (case User_find_token tok st of
        None \<Rightarrow> (Inl TokenNotFoundException, st)
      | Some user \<Rightarrow>
          if attempts user > max_attempts conf then (Inl AccountLocked, st)
          else if p \<noteq> pin user then (Inl WrongPinException, priv_increase_attempts user st)
          else if total_seconds (now - updated_at user) > of_int (token_expiration conf)
            then (Inl TokenExpiredException, st)
          else
            (case priv_set_openstack_password conf (user_id user) (password user) new_password of
               Inl e \<Rightarrow> (Inl e, st)
             | Inr ok \<Rightarrow> (Inr (), commit_delete user st)))"

text \<open>
  \<open>set_password()\<close>, the handler of \<open>POST /\<close>. A missing form field makes
  \<open>request.form[...]\<close> raise; \<open>request.args.get('token')\<close> never raises, so it is
  looked up where its value is tested. An exception the handler does not catch leaves
  it.
\<close>

definition set_password :: "env \<Rightarrow> int \<Rightarrow> request \<Rightarrow> store \<Rightarrow> (error + Response) \<times> store" where
  "set_password conf now req st =
     (case map_of (form req) ''password'' of
        None \<Rightarrow> (Inl (BadRequestKeyError ''password''), st)
      | Some pw \<Rightarrow>
     (case map_of (form req) ''confirm_password'' of
        None \<Rightarrow> (Inl (BadRequestKeyError ''confirm_password''), st)
      | Some confirm_password \<Rightarrow>
     (case map_of (form req) ''pin'' of
        None \<Rightarrow> (Inl (BadRequestKeyError ''pin''), st)
      | Some p \<Rightarrow>
     (case map_of (args req) ''token'' of
        None \<Rightarrow> (Inr (Response ''Missing required field!'' 400), st)
      | Some tok \<Rightarrow>
          if tok = [] \<or> pw = [] \<or> confirm_password = [] \<or> p = []
            then (Inr (Response ''Missing required field!'' 400), st)
          else if pw \<noteq> confirm_password
            then (Inr (Response ''Passwords do not match'' 400), st)
          else
            (case priv_set_password conf now tok p pw st of
               (Inr ok, st') \<Rightarrow> (Inr (Response ''Password set.'' 200), st')
             | (Inl TokenNotFoundException, st') \<Rightarrow> (Inr (Response ''Token not found'' 404), st')
             | (Inl TokenExpiredException, st') \<Rightarrow> (Inr (Response ''Token expired'' 403), st')
             | (Inl WrongPinException, st') \<Rightarrow> (Inr (Response ''Wrong pin'' 403), st')
             | (Inl (OpenStackError message), st') \<Rightarrow> (Inr (Response message 500), st')
             | (Inl AccountLocked, st') \<Rightarrow>
                 (Inr (Response ''Account locked, too many wrong attempts!'' 403), st')
             | (Inl e, st') \<Rightarrow> (Inl e, st'))))))"

text \<open>
  \<open>add(user_id)\<close>, the handler of \<open>PUT /token/<user_id>\<close>, at the time \<open>now\<close>;
  \<open>new_token\<close> is the string \<open>str(uuid.uuid4())\<close> yields.
\<close>

definition add :: "env \<Rightarrow> int \<Rightarrow> string \<Rightarrow> request \<Rightarrow> string \<Rightarrow> store \<Rightarrow> (error + Response) \<times> store" where
  "add conf now new_token req uid st =
     (case map_of (headers req) ''x-auth-token'' of
        None \<Rightarrow> (Inr (Response ''Unauthorized'' 401), st)
      | Some tok \<Rightarrow>
          if tok = [] then (Inr (Response ''Unauthorized'' 401), st)
          else
     (case priv_check_admin_token conf tok of
        Inl e \<Rightarrow> (Inl e, st)
      | Inr is_admin \<Rightarrow>
          if \<not> is_admin then (Inr (Response ''Forbidden'' 403), st)
          else
     (case data req of
        None \<Rightarrow> (Inl ValueError, st)
      | Some payload \<Rightarrow>
     (case User_find_user_id uid st of
        Some user \<Rightarrow>
          (case py_contains ''pin'' payload of
             Inl e \<Rightarrow> (Inl e, st)
           | Inr has_pin \<Rightarrow>
          (case (if has_pin
                 then (case py_getitem payload ''pin'' of
                         Inl e \<Rightarrow> Inl e | Inr v \<Rightarrow> Inr (user\<lparr>pin := v\<rparr>))
                 else Inr user) of
             Inl e \<Rightarrow> (Inl e, st)
           | Inr user1 \<Rightarrow>
          (case py_contains ''password'' payload of
             Inl e \<Rightarrow> (Inl e, st)
           | Inr has_password \<Rightarrow>
          (case (if has_password
                 then (case py_getitem payload ''password'' of
                         Inl e \<Rightarrow> Inl e | Inr v \<Rightarrow> Inr (user1\<lparr>password := v\<rparr>))
                 else Inr user1) of
             Inl e \<Rightarrow> (Inl e, st)
           | Inr user2 \<Rightarrow>
               (let user3 = update_timestamp_and_attempts now (user2\<lparr>token := new_token\<rparr>)
                in (Inr (Response (token user3) 200), commit_update user user3 st))))))
      | None \<Rightarrow>
          (case py_getitem payload ''pin'' of
             Inl e \<Rightarrow> (Inl e, st)
           | Inr p \<Rightarrow>
          (case py_getitem payload ''password'' of
             Inl e \<Rightarrow> (Inl e, st)
           | Inr pw \<Rightarrow>
               (let user = new_User now uid new_token p pw
                in (Inr (Response (token user) 200), commit_add user st))))))))"

section \<open>Sequences of redemption attempts and example data\<close>

text \<open>
  Consecutive calls of \<open>_set_password\<close> with one token, each at its own time with
  its own PIN and new password, every call on the store the call before left. The
  results are collected in order.
\<close>

fun redeem_seq ::
  "env \<Rightarrow> string \<Rightarrow> (int \<times> string \<times> string) list \<Rightarrow> store \<Rightarrow> (error + unit) list \<times> store" where
  "redeem_seq conf tok [] st = ([], st)"
| "redeem_seq conf tok ((now, p, new_password) # rest) st =
     (case priv_set_password conf now tok p new_password st of
        (r, st') \<Rightarrow> (case redeem_seq conf tok rest st' of (rs, st'') \<Rightarrow> (r # rs, st'')))"

text \<open>
  The request the unit tests post to redeem a token:
  \<open>app.post('/?token=%s' % token, data={'password': pw, 'confirm_password': pw, 'pin': pin})\<close>.
\<close>

definition redeem_request :: "string \<Rightarrow> string \<Rightarrow> string \<Rightarrow> request" where
  "redeem_request tok p pw =
     \<lparr>args = [(''token'', tok)],
      form = [(''password'', pw), (''confirm_password'', pw), (''pin'', p)],
      headers = [], data = None\<rparr>"

text \<open>
  The request the unit tests put to provision a token:
  \<open>app.put('/token/%s' % user_id, data=payload, headers={'x-auth-token': t})\<close>.
\<close>

definition provision_request :: "string \<Rightarrow> json option \<Rightarrow> request" where
  "provision_request t payload =
     \<lparr>args = [], form = [], headers = [(''x-auth-token'', t)], data = payload\<rparr>"

text \<open>
  A configuration with three attempts and a one-hour window, an identity provider that
  accepts the admin token \<open>admin\<close> and every password change, and a freshly provisioned
  record.
\<close>

definition example_conf :: env where
  "example_conf =
     \<lparr>max_attempts = 3, token_expiration = 3600,
      sess_get_token = (\<lambda>t. if t = ''admin'' then GotToken else RaisesUnauthorized),
      sess_post = (\<lambda>uid old new. Replied 204 [])\<rparr>"

definition example_user :: User where
  "example_user =
     \<lparr>user_id = ''U'', token = ''T'', pin = ''1234'', password = ''P'',
      attempts = 0, updated_at = 0\<rparr>"

section \<open>Rounding to a double\<close>

lemma round_half_even_le: "y \<le> of_int M \<Longrightarrow> round_half_even y \<le> M"
  unfolding round_half_even_def Let_def by (auto; linarith)

lemma round_half_even_ge: "of_int M \<le> y \<Longrightarrow> M \<le> round_half_even y"
  unfolding round_half_even_def Let_def by (auto; linarith)

lemma round_half_even_gt_half: "of_int M + 1 / 2 < y \<Longrightarrow> M + 1 \<le> round_half_even y"
  unfolding round_half_even_def Let_def by (auto; linarith)

lemma binade_bounds:
  assumes "0 < x"
  shows "2 powi (binade x) \<le> x \<and> x < 2 powi (binade x + 1)"
proof (cases "1 \<le> x")
  case True
  let ?n = "\<lfloor>x\<rfloor>"
  let ?b = "bitlen ?n"
  from True have n: "0 < ?n" by simp
  from bitlen_bounds [OF n] have lo: "2 ^ nat (?b - 1) \<le> ?n" and hi: "?n < 2 ^ nat ?b"
    by simp_all
  from n have b1: "1 \<le> ?b" using bitlen_eq_zero_iff [of ?n] bitlen_nonneg [of ?n] by linarith
  have e: "binade x = ?b - 1" using True by (simp add: binade_def)
  have "(2::rat) powi (?b - 1) = of_int (2 ^ nat (?b - 1))"
    using b1 by (simp add: power_int_def)
  also have "\<dots> \<le> of_int ?n" using lo by (simp only: of_int_le_iff)
  also have "\<dots> \<le> x" by simp
  finally have 1: "2 powi (binade x) \<le> x" by (simp add: e)
  have "x < of_int (?n + 1)" by linarith
  also have "\<dots> \<le> of_int (2 ^ nat ?b)" using hi by (simp only: of_int_le_iff)
  also have "\<dots> = (2::rat) powi ?b" using b1 by (simp add: power_int_def)
  finally have 2: "x < 2 powi (binade x + 1)" by (simp add: e)
  from 1 2 show ?thesis by simp
next
  case False
  let ?y = "1 / x"
  let ?m = "\<lceil>?y\<rceil>"
  let ?c = "bitlen (?m - 1)"
  from False assms have y1: "1 < ?y" by simp
  then have m: "0 < ?m - 1" by linarith
  from bitlen_bounds [OF m] have lo: "2 ^ nat (?c - 1) \<le> ?m - 1" and hi: "?m - 1 < 2 ^ nat ?c"
    by simp_all
  from m have c1: "1 \<le> ?c"
    using bitlen_eq_zero_iff [of "?m - 1"] bitlen_nonneg [of "?m - 1"] by linarith
  have e: "binade x = - ?c" using False by (simp add: binade_def)
  have "?y \<le> of_int ?m" by simp
  also have "\<dots> \<le> of_int (2 ^ nat ?c)" using hi by (simp only: of_int_le_iff)
  finally have yle: "?y \<le> 2 ^ nat ?c" by simp
  have "1 / 2 ^ nat ?c \<le> x"
  proof -
    from yle assms have "1 \<le> 2 ^ nat ?c * x"
      by (simp add: pos_divide_le_eq mult.commute)
    then show ?thesis by (simp add: pos_divide_le_eq mult.commute)
  qed
  moreover have "(2::rat) powi (- ?c) = 1 / 2 ^ nat ?c"
    using c1 by (simp add: power_int_def field_simps)
  ultimately have 1: "2 powi (binade x) \<le> x" by (simp add: e)
  have "of_int (2 ^ nat (?c - 1)) \<le> (of_int (?m - 1) :: rat)" using lo by (simp only: of_int_le_iff)
  also have "\<dots> < ?y" by linarith
  finally have ygt: "2 ^ nat (?c - 1) < ?y" by simp
  have "x < 1 / 2 ^ nat (?c - 1)"
  proof -
    from ygt assms have "2 ^ nat (?c - 1) * x < 1"
      by (simp add: pos_less_divide_eq)
    then show ?thesis by (simp add: pos_less_divide_eq mult.commute)
  qed
  moreover have "(2::rat) powi (- ?c + 1) = 1 / 2 ^ nat (?c - 1)"
  proof (cases "?c = 1")
    case True
    then show ?thesis by simp
  next
    case False
    with c1 have "- ?c + 1 < 0" by simp
    then show ?thesis by (simp add: power_int_def field_simps nat_diff_distrib)
  qed
  ultimately have 2: "x < 2 powi (binade x + 1)" by (simp add: e)
  from 1 2 show ?thesis by simp
qed


lemma ulp_small: "e \<le> 52 \<Longrightarrow> (2::rat) powi (e - 52) = 1 / 2 ^ nat (52 - e)"
  by (cases "e = 52") (simp_all add: power_int_def field_simps)

lemma binade_ulp: "(2::rat) powi e / 2 powi (e - 52) = 2 ^ 52"
proof -
  have nz: "(2::rat) powi (e - 52) \<noteq> 0" by simp
  have "(2::rat) powi e = 2 powi ((e - 52) + 52)" by simp
  also have "\<dots> = 2 powi (e - 52) * 2 powi 52" by (rule power_int_add) simp
  finally have "(2::rat) powi e / 2 powi (e - 52) = 2 powi 52" using nz by simp
  then show ?thesis by simp
qed

lemma round_double_bound_le:
  assumes "x \<noteq> 0" and "x / 2 powi (binade \<bar>x\<bar> - 52) \<le> of_int M"
  shows "round_double x \<le> of_int M * 2 powi (binade \<bar>x\<bar> - 52)"
proof -
  from assms(2) have "round_half_even (x / 2 powi (binade \<bar>x\<bar> - 52)) \<le> M"
    by (rule round_half_even_le)
  then have "(of_int (round_half_even (x / 2 powi (binade \<bar>x\<bar> - 52))) :: rat) \<le> of_int M"
    by (simp only: of_int_le_iff)
  then show ?thesis using assms(1)
    by (simp add: round_double_def Let_def)
qed

lemma round_double_bound_ge:
  assumes "x \<noteq> 0" and "of_int M \<le> x / 2 powi (binade \<bar>x\<bar> - 52)"
  shows "of_int M * 2 powi (binade \<bar>x\<bar> - 52) \<le> round_double x"
proof -
  from assms(2) have "M \<le> round_half_even (x / 2 powi (binade \<bar>x\<bar> - 52))"
    by (rule round_half_even_ge)
  then have "(of_int M :: rat) \<le> of_int (round_half_even (x / 2 powi (binade \<bar>x\<bar> - 52)))"
    by (simp only: of_int_le_iff)
  then show ?thesis using assms(1)
    by (simp add: round_double_def Let_def)
qed

lemma round_double_le_int:
  assumes "x \<le> of_int N" and "\<bar>N\<bar> \<le> 2 ^ 53"
  shows "round_double x \<le> of_int N"
proof (cases "x = 0")
  case True
  with assms(1) show ?thesis by (simp add: round_double_def)
next
  case False
  let ?e = "binade \<bar>x\<bar>"
  let ?ulp = "(2::rat) powi (?e - 52)"
  from False have ax: "0 < \<bar>x\<bar>" by simp
  from binade_bounds [OF ax] have lo: "2 powi ?e \<le> \<bar>x\<bar>" and hi: "\<bar>x\<bar> < 2 powi (?e + 1)"
    by simp_all
  have up: "0 < ?ulp" by simp
  show ?thesis
  proof (cases "?e \<le> 52")
    case True
    let ?M = "N * 2 ^ nat (52 - ?e)"
    have u: "?ulp = 1 / 2 ^ nat (52 - ?e)" using True by (rule ulp_small)
    have "x / ?ulp \<le> of_int N / ?ulp" using assms(1) up by (simp add: divide_right_mono)
    also have "\<dots> = of_int ?M" by (simp add: u)
    finally have "round_double x \<le> of_int ?M * ?ulp" using False by (intro round_double_bound_le)
    also have "\<dots> = of_int N" by (simp add: u)
    finally show ?thesis .
  next
    case big: False
    then have e53: "53 \<le> ?e" by simp
    then have "(2::rat) powi 53 \<le> 2 powi ?e" by (rule power_int_increasing) simp
    then have p53: "(2::rat) ^ 53 \<le> 2 powi ?e" by simp
    show ?thesis
    proof (cases "0 < x")
      case True
      with lo p53 assms(1) have "(2::rat) ^ 53 \<le> of_int N" by simp
      then have "(of_int (2 ^ 53) :: rat) \<le> of_int N" by simp
      then have "2 ^ 53 \<le> N" by (simp only: of_int_le_iff)
      with assms(2) have N: "N = 2 ^ 53" by simp
      from True lo assms(1) N have "(2::rat) powi ?e \<le> 2 powi 53" by simp
      then have "?e \<le> 53" by (rule power_int_le_imp_le_exp [of "2::rat", rotated]) simp_all
      with e53 have e: "?e = 53" by simp
      have "x / ?ulp \<le> of_int N / ?ulp" using assms(1) up by (simp add: divide_right_mono)
      also have "\<dots> = of_int (2 ^ 52)" by (simp add: e N)
      finally have "round_double x \<le> of_int (2 ^ 52) * ?ulp" using False
        by (intro round_double_bound_le)
      also have "\<dots> = of_int N" by (simp add: e N)
      finally show ?thesis .
    next
      case neg: False
      with False have xn: "x < 0" by simp
      with lo have "x \<le> - (2 powi ?e)" by simp
      then have "x / ?ulp \<le> - (2 powi ?e) / ?ulp" by (rule divide_right_mono) simp
      also have "\<dots> = of_int (- (2 ^ 52))" using binade_ulp [of ?e] by simp
      finally have "round_double x \<le> of_int (- (2 ^ 52)) * ?ulp" using False
        by (intro round_double_bound_le)
      also have "\<dots> = - (2 powi ?e)" using binade_ulp [of ?e] up by (simp add: field_simps)
      also have "\<dots> \<le> - (2 ^ 53)" using p53 by simp
      also have "\<dots> \<le> of_int N"
      proof -
        from assms(2) have "- (2 ^ 53) \<le> N" by simp
        then have "(of_int (- (2 ^ 53)) :: rat) \<le> of_int N" by (simp only: of_int_le_iff)
        then show ?thesis by simp
      qed
      finally show ?thesis .
    qed
  qed
qed

lemma round_double_gt_int:
  assumes "0 \<le> N" and "N < 2 ^ 34" and "of_int N + 1 / 1000000 \<le> x"
  shows "of_int N < round_double x"
proof -
  let ?e = "binade \<bar>x\<bar>"
  let ?ulp = "(2::rat) powi (?e - 52)"
  have "(0::rat) \<le> of_int N" using assms(1) by simp
  with assms(3) have xpos: "0 < x" by simp
  then have nz: "x \<noteq> 0" and ab: "\<bar>x\<bar> = x" by simp_all
  from binade_bounds [of "\<bar>x\<bar>"] xpos
  have lo: "2 powi ?e \<le> x" and hi: "x < 2 powi (?e + 1)" by simp_all
  have up: "0 < ?ulp" by simp
  show ?thesis
  proof (cases "?e \<le> 33")
    case True
    let ?k = "nat (52 - ?e)"
    let ?M = "N * 2 ^ ?k"
    from True have e52: "?e \<le> 52" by simp
    have u: "?ulp = 1 / 2 ^ ?k" using e52 by (rule ulp_small)
    from True have "19 \<le> ?k" by simp
    then have "(2::rat) ^ 19 \<le> 2 ^ ?k" by (rule power_increasing) simp
    then have k: "(524288::rat) \<le> 2 ^ ?k" by simp
    have "(of_int ?M :: rat) + 1 / 2 < (of_int N + 1 / 1000000) * 2 ^ ?k"
      using k by (simp add: algebra_simps)
    also have "\<dots> \<le> x * 2 ^ ?k" using assms(3) by (simp add: mult_right_mono)
    also have "\<dots> = x / ?ulp" by (simp add: u)
    finally have "?M + 1 \<le> round_half_even (x / ?ulp)" by (rule round_half_even_gt_half)
    then have "(of_int (?M + 1) :: rat) \<le> of_int (round_half_even (x / ?ulp))"
      by (simp only: of_int_le_iff)
    then have "of_int (?M + 1) * ?ulp \<le> round_double x" using nz up
      by (simp add: round_double_def Let_def)
    moreover have "of_int N < of_int (?M + 1) * ?ulp"
      by (simp add: u field_simps)
    ultimately show ?thesis by simp
  next
    case False
    then have "34 \<le> ?e" by simp
    then have "(2::rat) powi 34 \<le> 2 powi ?e" by (rule power_int_increasing) simp
    then have p34: "(2::rat) ^ 34 \<le> 2 powi ?e" by simp
    have "(of_int (2 ^ 52) :: rat) = 2 powi ?e / ?ulp" using binade_ulp [of ?e] by simp
    also have "\<dots> \<le> x / ?ulp" using lo by (rule divide_right_mono) simp
    finally have "of_int (2 ^ 52) * ?ulp \<le> round_double x" using nz
      by (intro round_double_bound_ge)
    moreover have "of_int (2 ^ 52) * ?ulp = 2 powi ?e"
      using binade_ulp [of ?e] up by (simp add: field_simps)
    moreover have "(of_int N :: rat) < 2 ^ 34"
    proof -
      from assms(2) have "(of_int N :: rat) < of_int (2 ^ 34)" by (simp only: of_int_less_iff)
      then show ?thesis by simp
    qed
    ultimately show ?thesis using p34 by simp
  qed
qed

text \<open>
  The expiry test in plain arithmetic. Up to \<open>N\<close> seconds, for \<open>|N| \<le> 2^53\<close>, a duration
  does not exceed \<open>N\<close> as a float either; and for \<open>0 \<le> N < 2^34\<close> every duration of more
  than \<open>N\<close> seconds exceeds \<open>N\<close> as a float. From \<open>N = 2^34\<close> on the spacing of the doubles
  is wider than two microseconds, and one microsecond more than \<open>2^34\<close> seconds is
  \<open>2^34\<close> seconds as a float.
\<close>

lemma total_seconds_zero: "total_seconds 0 = 0"
  by (simp add: total_seconds_def round_double_def)

lemma total_seconds_within:
  assumes "\<bar>N\<bar> \<le> 2 ^ 53" and "us \<le> N * 1000000"
  shows "\<not> total_seconds us > of_int N"
proof -
  from assms(2) have "(of_int us :: rat) \<le> of_int (N * 1000000)" by (simp only: of_int_le_iff)
  then have "(of_int us :: rat) / 1000000 \<le> of_int N" by simp
  then have "round_double (of_int us / 1000000) \<le> of_int N"
    using assms(1) by (rule round_double_le_int)
  then show ?thesis by (simp add: total_seconds_def)
qed

lemma total_seconds_past:
  assumes "0 \<le> N" and "N < 2 ^ 34" and "N * 1000000 < us"
  shows "total_seconds us > of_int N"
proof -
  from assms(3) have "N * 1000000 + 1 \<le> us" by simp
  then have "(of_int (N * 1000000 + 1) :: rat) \<le> of_int us" by (simp only: of_int_le_iff)
  then have "(of_int N :: rat) + 1 / 1000000 \<le> of_int us / 1000000" by (simp add: field_simps)
  with assms(1,2) have "of_int N < round_double (of_int us / 1000000)"
    by (rule round_double_gt_int)
  then show ?thesis by (simp add: total_seconds_def)
qed

lemma total_seconds_boundary: "total_seconds 17179869184000001 = 17179869184"
  by code_simp

section \<open>Lookups after a commit\<close>

lemma find_Some_mem: "List.find P st = Some u \<Longrightarrow> u \<in> set st \<and> P u"
  by (induction st) (auto split: if_splits)

lemma find_not_sat:
  "\<not> Q old \<Longrightarrow> map_option (\<lambda>r. if r = old then new else r) (List.find Q st) = List.find Q st"
  by (cases "List.find Q st") (auto dest: find_Some_mem)

lemma find_commit_update:
  "Q new = Q old \<Longrightarrow>
   List.find Q (commit_update old new st) =
     map_option (\<lambda>r. if r = old then new else r) (List.find Q st)"
proof (induction st)
  case Nil
  then show ?case by simp
next
  case (Cons r rs)
  show ?case
  proof (cases "r = old")
    case True
    with Cons.prems show ?thesis by (simp add: find_not_sat)
  next
    case False
    with Cons show ?thesis by simp
  qed
qed

lemma find_remove1_distinct:
  "distinct (map f st) \<Longrightarrow>
   List.find (\<lambda>r. f r = k) (remove1 u st) =
     (if f u = k \<and> u \<in> set st then None else List.find (\<lambda>r. f r = k) st)"
proof (induction st)
  case Nil
  then show ?case by simp
next
  case (Cons r rs)
  show ?case
  proof (cases "u = r")
    case True
    with Cons.prems show ?thesis by (force simp: find_None_iff image_iff)
  next
    case False
    with Cons show ?thesis by auto
  qed
qed

lemma find_distinct_mem:
  "distinct (map f st) \<Longrightarrow> u \<in> set st \<Longrightarrow> List.find (\<lambda>r. f r = f u) st = Some u"
  by (induction st) auto

lemma length_commit_update: "length (commit_update old new st) = length st"
  by (induction st) auto

lemma find_token_Some: "User_find_token tok st = Some u \<Longrightarrow> u \<in> set st \<and> token u = tok"
  unfolding User_find_token_def by (auto dest: find_Some_mem)

lemma find_token_increase_attempts:
  assumes "User_find_token tok st = Some u"
  shows "User_find_token tok (priv_increase_attempts u st) = Some (u\<lparr>attempts := attempts u + 1\<rparr>)"
  using assms unfolding User_find_token_def priv_increase_attempts_def
  by (simp add: find_commit_update)

lemma find_token_increase_attempts_other:
  assumes "User_find_token tok st = Some u" and "tok' \<noteq> tok"
  shows "User_find_token tok' (priv_increase_attempts u st) = User_find_token tok' st"
proof -
  have "token u = tok" using assms(1) by (simp add: find_token_Some)
  with assms(2) have "\<not> (\<lambda>r. token r = tok') u" by simp
  then show ?thesis unfolding User_find_token_def priv_increase_attempts_def
    by (simp add: find_commit_update find_not_sat)
qed

lemma find_user_id_increase_attempts:
  "User_find_user_id uid (priv_increase_attempts r st) =
     map_option (\<lambda>x. if x = r then r\<lparr>attempts := attempts r + 1\<rparr> else x) (User_find_user_id uid st)"
  unfolding User_find_user_id_def priv_increase_attempts_def
  by (simp add: find_commit_update)

section \<open>The branches of \<open>_set_password\<close>\<close>

lemma set_password_not_found:
  "User_find_token tok st = None \<Longrightarrow>
   priv_set_password conf now tok p new_password st = (Inl TokenNotFoundException, st)"
  by (simp add: priv_set_password_def)

lemma set_password_locked:
  "User_find_token tok st = Some u \<Longrightarrow> attempts u > max_attempts conf \<Longrightarrow>
   priv_set_password conf now tok p new_password st = (Inl AccountLocked, st)"
  by (simp add: priv_set_password_def)

lemma set_password_wrong_pin:
  "User_find_token tok st = Some u \<Longrightarrow> attempts u \<le> max_attempts conf \<Longrightarrow> p \<noteq> pin u \<Longrightarrow>
   priv_set_password conf now tok p new_password st =
     (Inl WrongPinException, priv_increase_attempts u st)"
  by (simp add: priv_set_password_def)

lemma set_password_expired:
  "User_find_token tok st = Some u \<Longrightarrow> attempts u \<le> max_attempts conf \<Longrightarrow> p = pin u \<Longrightarrow>
   total_seconds (now - updated_at u) > of_int (token_expiration conf) \<Longrightarrow>
   priv_set_password conf now tok p new_password st = (Inl TokenExpiredException, st)"
  by (simp add: priv_set_password_def)

lemma set_password_upstream:
  "User_find_token tok st = Some u \<Longrightarrow> attempts u \<le> max_attempts conf \<Longrightarrow> p = pin u \<Longrightarrow>
   \<not> total_seconds (now - updated_at u) > of_int (token_expiration conf) \<Longrightarrow>
   priv_set_openstack_password conf (user_id u) (password u) new_password = Inl e \<Longrightarrow>
   priv_set_password conf now tok p new_password st = (Inl e, st)"
  by (simp add: priv_set_password_def)

lemma set_password_done:
  "User_find_token tok st = Some u \<Longrightarrow> attempts u \<le> max_attempts conf \<Longrightarrow> p = pin u \<Longrightarrow>
   \<not> total_seconds (now - updated_at u) > of_int (token_expiration conf) \<Longrightarrow>
   priv_set_openstack_password conf (user_id u) (password u) new_password = Inr ok \<Longrightarrow>
   priv_set_password conf now tok p new_password st = (Inr (), remove1 u st)"
  by (simp add: priv_set_password_def commit_delete_def)

lemma set_password_cases:
  "(priv_set_password conf now tok p new_password st = (Inl TokenNotFoundException, st)
      \<and> User_find_token tok st = None)
   \<or> (\<exists>u. User_find_token tok st = Some u \<and>
        (priv_set_password conf now tok p new_password st = (Inl AccountLocked, st)
         \<or> priv_set_password conf now tok p new_password st
              = (Inl WrongPinException, priv_increase_attempts u st)
         \<or> priv_set_password conf now tok p new_password st = (Inl TokenExpiredException, st)
         \<or> (\<exists>e. priv_set_password conf now tok p new_password st = (Inl e, st)
              \<and> priv_set_openstack_password conf (user_id u) (password u) new_password = Inl e)
         \<or> priv_set_password conf now tok p new_password st = (Inr (), remove1 u st)))"
  by (auto simp: priv_set_password_def commit_delete_def split: option.splits sum.splits)

lemma redeem_seq_wrong_pins:
  "User_find_token tok st = Some u \<Longrightarrow>
   \<forall>(now, p, new_password) \<in> set as. p \<noteq> pin u \<Longrightarrow>
   attempts u + int (length as) \<le> max_attempts conf + 1 \<Longrightarrow>
   fst (redeem_seq conf tok as st) = replicate (length as) (Inl WrongPinException)
   \<and> User_find_token tok (snd (redeem_seq conf tok as st))
       = Some (u\<lparr>attempts := attempts u + int (length as)\<rparr>)"
proof (induction as arbitrary: st u)
  case Nil
  then show ?case by simp
next
  case (Cons a as)
  obtain now p new_password where a: "a = (now, p, new_password)" by (cases a) auto
  let ?u1 = "u\<lparr>attempts := attempts u + 1\<rparr>"
  let ?st1 = "priv_increase_attempts u st"
  from Cons.prems a have wrong: "p \<noteq> pin u" by auto
  from Cons.prems have le: "attempts u \<le> max_attempts conf" by simp
  have step: "priv_set_password conf now tok p new_password st = (Inl WrongPinException, ?st1)"
    using Cons.prems(1) le wrong by (rule set_password_wrong_pin)
  have f1: "User_find_token tok ?st1 = Some ?u1"
    using Cons.prems(1) by (rule find_token_increase_attempts)
  have w1: "\<forall>(now, p, new_password) \<in> set as. p \<noteq> pin ?u1"
    using Cons.prems(2) by auto
  have b1: "attempts ?u1 + int (length as) \<le> max_attempts conf + 1"
    using Cons.prems(3) by simp
  from Cons.IH [OF f1 w1 b1] show ?case
    by (auto simp: a step add.assoc split: prod.splits)
qed

section \<open>The handler on a well-formed redemption request\<close>

lemma set_password_wrong_pin_response:
  "tok \<noteq> [] \<Longrightarrow> p \<noteq> [] \<Longrightarrow> pw \<noteq> [] \<Longrightarrow>
   priv_set_password conf now tok p pw st = (Inl WrongPinException, st') \<Longrightarrow>
   set_password conf now (redeem_request tok p pw) st = (Inr (Response ''Wrong pin'' 403), st')"
  by (simp add: set_password_def redeem_request_def)

lemma set_password_locked_response:
  "tok \<noteq> [] \<Longrightarrow> p \<noteq> [] \<Longrightarrow> pw \<noteq> [] \<Longrightarrow>
   priv_set_password conf now tok p pw st = (Inl AccountLocked, st') \<Longrightarrow>
   set_password conf now (redeem_request tok p pw) st
     = (Inr (Response ''Account locked, too many wrong attempts!'' 403), st')"
  by (simp add: set_password_def redeem_request_def)

lemma set_openstack_password_not_wrong_pin:
  "priv_set_openstack_password conf uid old new \<noteq> Inl WrongPinException"
  by (auto simp: priv_set_openstack_password_def split: post_outcome.splits)

section \<open>The branches of \<open>add\<close>\<close>

lemma find_snoc:
  "List.find P (st @ [r]) = (case List.find P st of None \<Rightarrow> (if P r then Some r else None) | Some x \<Rightarrow> Some x)"
  by (induction st) auto

lemma py_contains_JObj: "py_contains k (JObj kvs) = Inr (map_of kvs k \<noteq> None)"
  by (simp add: map_of_eq_None_iff)

lemma add_authorised:
  assumes "map_of (headers req) ''x-auth-token'' = Some t" and "t \<noteq> []"
    and "priv_check_admin_token conf t = Inr True"
  shows "add conf now new_token req uid st =
     (case data req of
        None \<Rightarrow> (Inl ValueError, st)
      | Some payload \<Rightarrow>
     (case User_find_user_id uid st of
        Some user \<Rightarrow>
          (case py_contains ''pin'' payload of
             Inl e \<Rightarrow> (Inl e, st)
           | Inr has_pin \<Rightarrow>
          (case (if has_pin
                 then (case py_getitem payload ''pin'' of
                         Inl e \<Rightarrow> Inl e | Inr v \<Rightarrow> Inr (user\<lparr>pin := v\<rparr>))
                 else Inr user) of
             Inl e \<Rightarrow> (Inl e, st)
           | Inr user1 \<Rightarrow>
          (case py_contains ''password'' payload of
             Inl e \<Rightarrow> (Inl e, st)
           | Inr has_password \<Rightarrow>
          (case (if has_password
                 then (case py_getitem payload ''password'' of
                         Inl e \<Rightarrow> Inl e | Inr v \<Rightarrow> Inr (user1\<lparr>password := v\<rparr>))
                 else Inr user1) of
             Inl e \<Rightarrow> (Inl e, st)
           | Inr user2 \<Rightarrow>
               (let user3 = update_timestamp_and_attempts now (user2\<lparr>token := new_token\<rparr>)
                in (Inr (Response (token user3) 200), commit_update user user3 st))))))
      | None \<Rightarrow>
          (case py_getitem payload ''pin'' of
             Inl e \<Rightarrow> (Inl e, st)
           | Inr p \<Rightarrow>
          (case py_getitem payload ''password'' of
             Inl e \<Rightarrow> (Inl e, st)
           | Inr pw \<Rightarrow>
               (let user = new_User now uid new_token p pw
                in (Inr (Response (token user) 200), commit_add user st))))))"
  using assms by (simp add: add_def)

lemma add_existing_object:
  assumes "map_of (headers req) ''x-auth-token'' = Some t" and "t \<noteq> []"
    and "priv_check_admin_token conf t = Inr True"
    and "data req = Some (JObj kvs)"
    and "User_find_user_id uid st = Some u"
  shows "add conf now new_token req uid st =
     (Inr (Response new_token 200),
      commit_update u
        (u\<lparr>pin := (case map_of kvs ''pin'' of None \<Rightarrow> pin u | Some v \<Rightarrow> v),
           password := (case map_of kvs ''password'' of None \<Rightarrow> password u | Some v \<Rightarrow> v),
           token := new_token, updated_at := now, attempts := 0\<rparr>) st)"
  unfolding add_authorised [OF assms(1-3)]
  using assms(4,5)
  by (cases "map_of kvs ''pin''"; cases "map_of kvs ''password''")
     (simp_all add: py_contains_JObj update_timestamp_and_attempts_def del: py_contains.simps)

lemma add_ok_authorised:
  assumes "add conf now new_token req uid st = (Inr (Response body 200), st')"
  shows "\<exists>t. map_of (headers req) ''x-auth-token'' = Some t \<and> t \<noteq> []
    \<and> priv_check_admin_token conf t = Inr True"
proof (cases "map_of (headers req) ''x-auth-token''")
  case None
  with assms show ?thesis by (simp add: add_def)
next
  case (Some t)
  show ?thesis
  proof (cases "t = []")
    case True
    with Some assms show ?thesis by (simp add: add_def)
  next
    case False
    show ?thesis
    proof (cases "priv_check_admin_token conf t")
      case (Inl e)
      with Some False assms show ?thesis by (simp add: add_def)
    next
      case (Inr is_admin)
      with Some False assms show ?thesis by (cases is_admin) (simp_all add: add_def)
    qed
  qed
qed

lemma add_ok_existing:
  assumes "add conf now new_token req uid st = (Inr (Response body 200), st')"
    and "User_find_user_id uid st = Some user"
  shows "\<exists>user2. st' = commit_update user
            (update_timestamp_and_attempts now (user2\<lparr>token := new_token\<rparr>)) st
          \<and> user_id user2 = user_id user"
proof -
  from add_ok_authorised [OF assms(1)] obtain t where
    t: "map_of (headers req) ''x-auth-token'' = Some t" "t \<noteq> []"
       "priv_check_admin_token conf t = Inr True"
    by blast
  show ?thesis
    using assms unfolding add_authorised [OF t] Let_def
    by (fastforce split: option.splits sum.splits if_splits)
qed

lemma add_ok_new:
  assumes "add conf now new_token req uid st = (Inr (Response body 200), st')"
    and "User_find_user_id uid st = None"
  shows "\<exists>p pw. st' = commit_add (new_User now uid new_token p pw) st"
proof -
  from add_ok_authorised [OF assms(1)] obtain t where
    t: "map_of (headers req) ''x-auth-token'' = Some t" "t \<noteq> []"
       "priv_check_admin_token conf t = Inr True"
    by blast
  show ?thesis
    using assms unfolding add_authorised [OF t] Let_def
    by (fastforce split: option.splits sum.splits)
qed

section \<open>The data model's invariants are kept\<close>

lemma map_commit_update_same:
  "f new = f old \<Longrightarrow> map f (commit_update old new st) = map f st"
  by (induction st) auto

lemma set_commit_update: "set (commit_update old new st) \<subseteq> insert new (set st)"
  by (induction st) auto

lemma distinct_map_commit_update_fresh:
  "distinct (map f st) \<Longrightarrow> f new \<notin> f ` set st \<Longrightarrow> distinct (map f (commit_update old new st))"
proof (induction st)
  case Nil
  then show ?case by simp
next
  case (Cons r rs)
  from set_commit_update [of old new rs]
  have "f ` set (commit_update old new rs) \<subseteq> insert (f new) (f ` set rs)" by auto
  with Cons show ?case by auto
qed

lemma distinct_map_remove1: "distinct (map f st) \<Longrightarrow> distinct (map f (remove1 r st))"
proof (induction st)
  case Nil
  then show ?case by simp
next
  case (Cons x xs)
  from set_remove1_subset [of r xs] have "f ` set (remove1 r xs) \<subseteq> f ` set xs" by auto
  with Cons show ?case by auto
qed

lemma wf_store_set_password:
  assumes "wf_store st"
  shows "wf_store (snd (priv_set_password conf now tok p new_password st))"
  using assms set_password_cases [of conf now tok p new_password st]
  by (auto simp: wf_store_def priv_increase_attempts_def map_commit_update_same
      distinct_map_remove1)

lemma wf_store_add:
  assumes "wf_store st" and "new_token \<notin> token ` set st"
  shows "wf_store (snd (add conf now new_token req uid st))"
proof (cases "fst (add conf now new_token req uid st)")
  case (Inl e)
  then have "snd (add conf now new_token req uid st) = st"
    unfolding add_def Let_def
    by (auto split: option.splits sum.splits if_splits)
  with assms(1) show ?thesis by simp
next
  case (Inr resp)
  show ?thesis
  proof (cases "status resp = 200")
    case False
    with Inr have "snd (add conf now new_token req uid st) = st"
      unfolding add_def Let_def
      by (auto split: option.splits sum.splits if_splits)
    with assms(1) show ?thesis by simp
  next
    case True
    with Inr have ok: "add conf now new_token req uid st
        = (Inr (Response (response resp) 200), snd (add conf now new_token req uid st))"
      by (cases resp) (simp add: prod_eq_iff)
    show ?thesis
    proof (cases "User_find_user_id uid st")
      case None
      from add_ok_new [OF ok None] obtain p' pw where
        s: "snd (add conf now new_token req uid st)
          = commit_add (new_User now uid new_token p' pw) st" by blast
      from None have "uid \<notin> user_id ` set st"
        unfolding User_find_user_id_def by (auto simp: find_None_iff)
      with assms show ?thesis
        unfolding s by (simp add: wf_store_def commit_add_def new_User_def)
    next
      case (Some user)
      from add_ok_existing [OF ok Some] obtain user2 where
        s: "snd (add conf now new_token req uid st) = commit_update user
            (update_timestamp_and_attempts now (user2\<lparr>token := new_token\<rparr>)) st"
        and uid2: "user_id user2 = user_id user" by blast
      from assms uid2 show ?thesis
        unfolding s
        by (simp add: wf_store_def map_commit_update_same distinct_map_commit_update_fresh
            update_timestamp_and_attempts_def)
    qed
  qed
qed

section \<open>Redemption\<close>

text \<open>
  Claim C1. For every stored reset request of a store that meets the data model's
  invariants, redeeming its token with the correct PIN, with \<open>attempts\<close> not above
  \<open>max_attempts\<close>, before expiry, and with the identity provider answering the
  password change with a 2xx status, succeeds and deletes the record (only that record);
  any later redemption with the same token, whatever its time, PIN and password, fails
  with \<open>TokenNotFoundException\<close>. Before expiry means that the expiry test of the code,
  \<open>delta.total_seconds() > CONF.token_expiration\<close>, is false; by \<open>total_seconds_within\<close>
  that is so whenever at most \<open>token_expiration\<close> seconds have elapsed (for \<open>token_expiration\<close>
  up to \<open>2^53\<close>), as in the witness.
\<close>

theorem redeem_succeeds_exactly_once:
  assumes "wf_store st" and "u \<in> set st"
    and "attempts u \<le> max_attempts conf"
    and "\<not> total_seconds (now - updated_at u) > of_int (token_expiration conf)"
    and "sess_post conf (user_id u) (password u) new_password = Replied status_code txt"
    and "200 \<le> status_code" and "status_code < 300"
  shows "priv_set_password conf now (token u) (pin u) new_password st = (Inr (), remove1 u st)
    \<and> set (remove1 u st) = set st - {u}
    \<and> User_find_token (token u) (remove1 u st) = None
    \<and> priv_set_password conf now' (token u) p' new_password' (remove1 u st)
         = (Inl TokenNotFoundException, remove1 u st)"
proof -
  from assms(1) have dt: "distinct (map token st)" by (simp add: wf_store_def)
  then have d: "distinct st" by (simp add: distinct_map)
  have f: "User_find_token (token u) st = Some u"
    unfolding User_find_token_def using dt assms(2) by (rule find_distinct_mem)
  have ok: "priv_set_openstack_password conf (user_id u) (password u) new_password = Inr True"
    using assms(5-7) by (simp add: priv_set_openstack_password_def)
  have 1: "priv_set_password conf now (token u) (pin u) new_password st = (Inr (), remove1 u st)"
    using f assms(3) refl assms(4) ok by (rule set_password_done)
  have 2: "set (remove1 u st) = set st - {u}" using d by simp
  have 3: "User_find_token (token u) (remove1 u st) = None"
    unfolding User_find_token_def using assms(2) by (simp add: find_remove1_distinct [OF dt])
  from 1 2 3 set_password_not_found [OF 3] show ?thesis by simp
qed

theorem redeem_succeeds_exactly_once_witness:
  "wf_store [example_user] \<and> example_user \<in> set [example_user]
   \<and> attempts example_user \<le> max_attempts example_conf
   \<and> 60000000 - updated_at example_user \<le> token_expiration example_conf * 1000000
   \<and> \<not> total_seconds (60000000 - updated_at example_user)
          > of_int (token_expiration example_conf)
   \<and> sess_post example_conf (user_id example_user) (password example_user) ''new'' = Replied 204 []
   \<and> priv_set_password example_conf 60000000 (token example_user) (pin example_user) ''new''
        [example_user] = (Inr (), [])
   \<and> priv_set_password example_conf 61000000 (token example_user) (pin example_user) ''newer'' []
        = (Inl TokenNotFoundException, [])"
proof -
  have h1: "wf_store [example_user]" by (simp add: wf_store_def)
  have h2: "example_user \<in> set [example_user]" by simp
  have h3: "attempts example_user \<le> max_attempts example_conf"
    by (simp add: example_user_def example_conf_def)
  have w: "60000000 - updated_at example_user \<le> token_expiration example_conf * 1000000"
    by (simp add: example_user_def example_conf_def)
  have b: "\<bar>token_expiration example_conf\<bar> \<le> 2 ^ 53" by (simp add: example_conf_def)
  have h4: "\<not> total_seconds (60000000 - updated_at example_user)
      > of_int (token_expiration example_conf)"
    using b w by (rule total_seconds_within)
  have h5: "sess_post example_conf (user_id example_user) (password example_user) ''new''
      = Replied 204 []"
    by (simp add: example_conf_def)
  from redeem_succeeds_exactly_once [OF h1 h2 h3 h4 h5, of 61000000 "pin example_user" "''newer''"]
    h1 h2 h3 w h4 h5
  show ?thesis by simp
qed

text \<open>
  Claim C2, as stated, fails: the lockout check is \<open>attempts > max_attempts\<close>, so after
  \<open>max_attempts\<close> wrong PINs the record is not yet locked. With \<open>max_attempts = 3\<close>, after
  three wrong PINs the fourth attempt, with the correct PIN, sets the password.
\<close>

theorem lockout_scenario_counterexample:
  "attempts example_user = 0 \<and> max_attempts example_conf = 3
   \<and> redeem_seq example_conf ''T''
        [(0, ''0000'', ''x''), (0, ''0000'', ''x''), (0, ''0000'', ''x''), (0, ''1234'', ''new'')]
        [example_user]
      = ([Inl WrongPinException, Inl WrongPinException, Inl WrongPinException, Inr ()], [])"
  by (simp add: priv_set_password_def User_find_token_def priv_increase_attempts_def
      priv_set_openstack_password_def commit_delete_def example_user_def example_conf_def
      total_seconds_zero)

text \<open>
  Claim C2, amended. Starting from a record with \<open>attempts = 0\<close> and with
  \<open>max_attempts \<ge> 0\<close>, each of the first \<open>max_attempts + 1\<close> redemption attempts with a
  wrong PIN fails with \<open>WrongPinException\<close>, and the attempt after them fails with
  \<open>AccountLocked\<close> whatever its PIN, so also with the correct one. The handler of
  \<open>POST /\<close> answers a call that fails with \<open>WrongPinException\<close> with status 403 and body
  \<open>Wrong pin\<close>, and the locked attempt with status 403 and body
  \<open>Account locked, too many wrong attempts!\<close>.
\<close>

theorem lockout_after_max_attempts_plus_one:
  assumes "User_find_token tok st = Some u" and "attempts u = 0"
    and "0 \<le> max_attempts conf"
    and "length as = nat (max_attempts conf + 1)"
    and "\<forall>(now, p, new_password) \<in> set as. p \<noteq> pin u"
  shows "fst (redeem_seq conf tok as st)
        = replicate (nat (max_attempts conf + 1)) (Inl WrongPinException)
    \<and> priv_set_password conf now tok p new_password (snd (redeem_seq conf tok as st))
        = (Inl AccountLocked, snd (redeem_seq conf tok as st))
    \<and> (tok \<noteq> [] \<and> p \<noteq> [] \<and> new_password \<noteq> [] \<longrightarrow>
         set_password conf now (redeem_request tok p new_password) (snd (redeem_seq conf tok as st))
           = (Inr (Response ''Account locked, too many wrong attempts!'' 403),
              snd (redeem_seq conf tok as st)))
    \<and> (\<forall>now' p' pw' s s'. tok \<noteq> [] \<and> p' \<noteq> [] \<and> pw' \<noteq> [] \<and>
          priv_set_password conf now' tok p' pw' s = (Inl WrongPinException, s') \<longrightarrow>
          set_password conf now' (redeem_request tok p' pw') s
            = (Inr (Response ''Wrong pin'' 403), s'))"
proof -
  let ?st' = "snd (redeem_seq conf tok as st)"
  have bound: "attempts u + int (length as) \<le> max_attempts conf + 1"
    using assms(2-4) by simp
  from redeem_seq_wrong_pins [OF assms(1) assms(5) bound]
  have res: "fst (redeem_seq conf tok as st) = replicate (length as) (Inl WrongPinException)"
    and f: "User_find_token tok ?st' = Some (u\<lparr>attempts := attempts u + int (length as)\<rparr>)"
    by simp_all
  have "attempts (u\<lparr>attempts := attempts u + int (length as)\<rparr>) > max_attempts conf"
    using assms(2-4) by simp
  with f have locked: "priv_set_password conf now tok p new_password ?st' = (Inl AccountLocked, ?st')"
    by (rule set_password_locked)
  from res locked assms(4) show ?thesis
    by (simp add: set_password_locked_response set_password_wrong_pin_response)
qed

theorem lockout_after_max_attempts_plus_one_witness:
  "User_find_token ''T'' [example_user] = Some example_user \<and> attempts example_user = 0
   \<and> 0 \<le> max_attempts example_conf
   \<and> fst (redeem_seq example_conf ''T''
        [(0, ''0000'', ''x''), (1, ''1111'', ''y''), (2, ''4321'', ''z''), (3, ''123'', ''w'')]
        [example_user])
      = [Inl WrongPinException, Inl WrongPinException, Inl WrongPinException,
         Inl WrongPinException]
   \<and> set_password example_conf 4 (redeem_request ''T'' ''1234'' ''new'')
        (snd (redeem_seq example_conf ''T''
          [(0, ''0000'', ''x''), (1, ''1111'', ''y''), (2, ''4321'', ''z''), (3, ''123'', ''w'')]
          [example_user]))
      = (Inr (Response ''Account locked, too many wrong attempts!'' 403),
         [example_user\<lparr>attempts := 4\<rparr>])"
proof -
  let ?as = "[(0, ''0000'', ''x''), (1, ''1111'', ''y''), (2, ''4321'', ''z''), (3, ''123'', ''w'')]
    :: (int \<times> string \<times> string) list"
  have h1: "User_find_token ''T'' [example_user] = Some example_user"
    by (simp add: User_find_token_def example_user_def)
  have h2: "attempts example_user = 0" by (simp add: example_user_def)
  have h3: "0 \<le> max_attempts example_conf" by (simp add: example_conf_def)
  have h4: "length ?as = nat (max_attempts example_conf + 1)" by (simp add: example_conf_def)
  have h5: "\<forall>(now, p, new_password) \<in> set ?as. p \<noteq> pin example_user"
    by (simp add: example_user_def)
  have n: "nat (max_attempts example_conf + 1) = 4" by (simp add: example_conf_def)
  have s: "snd (redeem_seq example_conf ''T'' ?as [example_user]) = [example_user\<lparr>attempts := 4\<rparr>]"
    by (simp add: priv_set_password_def User_find_token_def priv_increase_attempts_def
        example_user_def example_conf_def)
  from lockout_after_max_attempts_plus_one [OF h1 h2 h3 h4 h5, of 4 "''1234''" "''new''"]
    h1 h2 h3 n s
  show ?thesis by (simp add: numeral_eq_Suc)
qed

text \<open>
  Claim C3. When the record a token resolves to has \<open>attempts > max_attempts\<close>, every
  redemption attempt with that token fails with \<open>AccountLocked\<close>, whatever the PIN, the
  time and the new password, and the store (so also \<open>attempts\<close>) is left as it was.
\<close>

theorem locked_rejects_every_pin:
  assumes "User_find_token tok st = Some u" and "attempts u > max_attempts conf"
  shows "priv_set_password conf now tok p new_password st = (Inl AccountLocked, st)"
  using assms by (rule set_password_locked)

theorem locked_rejects_every_pin_witness:
  "User_find_token ''T'' [example_user\<lparr>attempts := 4\<rparr>] = Some (example_user\<lparr>attempts := 4\<rparr>)
   \<and> attempts (example_user\<lparr>attempts := 4\<rparr>) > max_attempts example_conf
   \<and> priv_set_password example_conf 0 ''T'' ''1234'' ''new'' [example_user\<lparr>attempts := 4\<rparr>]
       = (Inl AccountLocked, [example_user\<lparr>attempts := 4\<rparr>])"
proof -
  have f: "User_find_token ''T'' [example_user\<lparr>attempts := 4\<rparr>]
      = Some (example_user\<lparr>attempts := 4\<rparr>)"
    by (simp add: User_find_token_def example_user_def)
  have a: "attempts (example_user\<lparr>attempts := 4\<rparr>) > max_attempts example_conf"
    by (simp add: example_conf_def)
  from f a locked_rejects_every_pin [OF f a, of 0 "''1234''" "''new''"] show ?thesis by simp
qed

text \<open>
  Claim C5. When the record a token resolves to is not locked
  (\<open>attempts \<le> max_attempts\<close>), a redemption attempt with a PIN other than the stored
  one fails with \<open>WrongPinException\<close>, and the store the failed call leaves holds the
  record with \<open>attempts\<close> greater by exactly 1 and nothing else changed: the other
  fields of the record, the number of rows, and what every other token resolves to.
\<close>

theorem wrong_pin_counts_one_attempt:
  assumes "User_find_token tok st = Some u" and "attempts u \<le> max_attempts conf"
    and "p \<noteq> pin u"
  shows "fst (priv_set_password conf now tok p new_password st) = Inl WrongPinException
    \<and> snd (priv_set_password conf now tok p new_password st)
         = commit_update u (u\<lparr>attempts := attempts u + 1\<rparr>) st
    \<and> User_find_token tok (snd (priv_set_password conf now tok p new_password st))
         = Some (u\<lparr>attempts := attempts u + 1\<rparr>)
    \<and> length (snd (priv_set_password conf now tok p new_password st)) = length st
    \<and> (\<forall>tok'. tok' \<noteq> tok \<longrightarrow>
          User_find_token tok' (snd (priv_set_password conf now tok p new_password st))
            = User_find_token tok' st)"
proof -
  have step: "priv_set_password conf now tok p new_password st
      = (Inl WrongPinException, priv_increase_attempts u st)"
    using assms by (rule set_password_wrong_pin)
  have other: "\<forall>tok'. tok' \<noteq> tok \<longrightarrow>
      User_find_token tok' (priv_increase_attempts u st) = User_find_token tok' st"
    using assms(1) by (simp add: find_token_increase_attempts_other)
  have len: "length (priv_increase_attempts u st) = length st"
    by (simp add: priv_increase_attempts_def length_commit_update)
  have upd: "priv_increase_attempts u st = commit_update u (u\<lparr>attempts := attempts u + 1\<rparr>) st"
    by (simp add: priv_increase_attempts_def)
  from step other len upd find_token_increase_attempts [OF assms(1)] show ?thesis
    by simp
qed

theorem wrong_pin_counts_one_attempt_witness:
  "User_find_token ''T'' [example_user] = Some example_user
   \<and> attempts example_user \<le> max_attempts example_conf
   \<and> ''0000'' \<noteq> pin example_user
   \<and> priv_set_password example_conf 0 ''T'' ''0000'' ''new'' [example_user]
       = (Inl WrongPinException, [example_user\<lparr>attempts := 1\<rparr>])"
proof -
  have f: "User_find_token ''T'' [example_user] = Some example_user"
    by (simp add: User_find_token_def example_user_def)
  have a: "attempts example_user \<le> max_attempts example_conf"
    by (simp add: example_user_def example_conf_def)
  have w: "''0000'' \<noteq> pin example_user"
    by (simp add: example_user_def)
  have v: "attempts example_user + 1 = 1" by (simp add: example_user_def)
  from wrong_pin_counts_one_attempt [OF f a w, of 0 "''new''"] f a w v show ?thesis
    by (simp add: prod_eq_iff)
qed

text \<open>
  Claim C6, as stated, fails in its last part, in two ways. The PIN check precedes the
  expiry check, so redeeming an expired record with a wrong PIN fails with
  \<open>WrongPinException\<close>, not with \<open>TokenExpiredException\<close>, and the record's \<open>attempts\<close>
  changes. And the elapsed time is measured as the float \<open>delta.total_seconds()\<close>: with
  \<open>token_expiration = 2^34\<close> seconds, one microsecond after \<open>updated_at + token_expiration\<close>
  the float is \<open>2^34\<close>, the test is false, and a redemption with the correct PIN
  sets the password and deletes the record.
\<close>

theorem expired_redemption_counterexample:
  "3601000000 - updated_at example_user > token_expiration example_conf * 1000000
   \<and> total_seconds (3601000000 - updated_at example_user) > of_int (token_expiration example_conf)
   \<and> priv_set_password example_conf 3601000000 ''T'' ''0000'' ''new'' [example_user]
       = (Inl WrongPinException, [example_user\<lparr>attempts := 1\<rparr>])
   \<and> 17179869184000001 - updated_at example_user > 17179869184 * 1000000
   \<and> priv_set_password (example_conf\<lparr>token_expiration := 17179869184\<rparr>) 17179869184000001
        ''T'' ''1234'' ''new'' [example_user]
       = (Inr (), [])"
proof -
  have a: "3601000000 - updated_at example_user > token_expiration example_conf * 1000000"
    by (simp add: example_user_def example_conf_def)
  have n: "0 \<le> token_expiration example_conf" "token_expiration example_conf < 2 ^ 34"
    by (simp_all add: example_conf_def)
  have b: "total_seconds (3601000000 - updated_at example_user)
      > of_int (token_expiration example_conf)"
    using n a by (rule total_seconds_past)
  have c: "priv_set_password example_conf 3601000000 ''T'' ''0000'' ''new'' [example_user]
      = (Inl WrongPinException, [example_user\<lparr>attempts := 1\<rparr>])"
    by (simp add: priv_set_password_def User_find_token_def priv_increase_attempts_def
        example_user_def example_conf_def)
  have d: "17179869184000001 - updated_at example_user > 17179869184 * 1000000"
    by (simp add: example_user_def)
  have e: "priv_set_password (example_conf\<lparr>token_expiration := 17179869184\<rparr>) 17179869184000001
      ''T'' ''1234'' ''new'' [example_user] = (Inr (), [])"
    by (simp add: priv_set_password_def User_find_token_def priv_set_openstack_password_def
        commit_delete_def example_user_def example_conf_def total_seconds_boundary)
  from a b c d e show ?thesis by blast
qed

text \<open>
  Claim C6, amended. Every redemption attempt that fails with an exception other than
  \<open>WrongPinException\<close> (token not found, account locked, token expired, an error of the
  identity provider) leaves the store exactly as it was; one that fails with
  \<open>WrongPinException\<close> changes only \<open>attempts\<close> of the record of the token, by one. In
  particular, redeeming with the correct PIN a record that is not locked, once the
  elapsed time since \<open>updated_at\<close> exceeds \<open>token_expiration\<close> as the code measures it
  (\<open>delta.total_seconds() > CONF.token_expiration\<close>), fails with \<open>TokenExpiredException\<close>,
  and the record remains present with all fields unchanged; for
  \<open>0 \<le> token_expiration < 2^34\<close> seconds that is every redemption after
  \<open>updated_at + token_expiration\<close>.
\<close>

theorem failed_redemption_leaves_store:
  "(\<forall>e. fst (priv_set_password conf now tok p new_password st) = Inl e \<and> e \<noteq> WrongPinException
        \<longrightarrow> snd (priv_set_password conf now tok p new_password st) = st)
   \<and> (fst (priv_set_password conf now tok p new_password st) = Inl WrongPinException
        \<longrightarrow> (\<exists>u. User_find_token tok st = Some u
              \<and> snd (priv_set_password conf now tok p new_password st)
                  = commit_update u (u\<lparr>attempts := attempts u + 1\<rparr>) st))
   \<and> (\<forall>u. User_find_token tok st = Some u \<and> attempts u \<le> max_attempts conf \<and> p = pin u
          \<and> total_seconds (now - updated_at u) > of_int (token_expiration conf)
        \<longrightarrow> priv_set_password conf now tok p new_password st = (Inl TokenExpiredException, st)
          \<and> User_find_token tok (snd (priv_set_password conf now tok p new_password st)) = Some u)
   \<and> (\<forall>u. User_find_token tok st = Some u \<and> attempts u \<le> max_attempts conf \<and> p = pin u
          \<and> 0 \<le> token_expiration conf \<and> token_expiration conf < 2 ^ 34
          \<and> now - updated_at u > token_expiration conf * 1000000
        \<longrightarrow> priv_set_password conf now tok p new_password st = (Inl TokenExpiredException, st)
          \<and> User_find_token tok (snd (priv_set_password conf now tok p new_password st)) = Some u)"
proof -
  have a: "\<forall>e. fst (priv_set_password conf now tok p new_password st) = Inl e
        \<and> e \<noteq> WrongPinException
      \<longrightarrow> snd (priv_set_password conf now tok p new_password st) = st"
    using set_password_cases [of conf now tok p new_password st] by auto
  have b: "fst (priv_set_password conf now tok p new_password st) = Inl WrongPinException
      \<longrightarrow> (\<exists>u. User_find_token tok st = Some u
            \<and> snd (priv_set_password conf now tok p new_password st)
                = commit_update u (u\<lparr>attempts := attempts u + 1\<rparr>) st)"
    using set_password_cases [of conf now tok p new_password st]
    by (auto simp: priv_increase_attempts_def set_openstack_password_not_wrong_pin)
  have c: "\<forall>u. User_find_token tok st = Some u \<and> attempts u \<le> max_attempts conf \<and> p = pin u
        \<and> total_seconds (now - updated_at u) > of_int (token_expiration conf)
      \<longrightarrow> priv_set_password conf now tok p new_password st = (Inl TokenExpiredException, st)
        \<and> User_find_token tok (snd (priv_set_password conf now tok p new_password st)) = Some u"
    by (simp add: set_password_expired)
  have d: "\<forall>u. User_find_token tok st = Some u \<and> attempts u \<le> max_attempts conf \<and> p = pin u
        \<and> 0 \<le> token_expiration conf \<and> token_expiration conf < 2 ^ 34
        \<and> now - updated_at u > token_expiration conf * 1000000
      \<longrightarrow> priv_set_password conf now tok p new_password st = (Inl TokenExpiredException, st)
        \<and> User_find_token tok (snd (priv_set_password conf now tok p new_password st)) = Some u"
    using c total_seconds_past [of "token_expiration conf"] by blast
  from a b c d show ?thesis by blast
qed

theorem failed_redemption_leaves_store_witness:
  "User_find_token ''T'' [example_user] = Some example_user
   \<and> attempts example_user \<le> max_attempts example_conf
   \<and> 0 \<le> token_expiration example_conf \<and> token_expiration example_conf < 2 ^ 34
   \<and> 3601000000 - updated_at example_user > token_expiration example_conf * 1000000
   \<and> priv_set_password example_conf 3601000000 ''T'' ''1234'' ''new'' [example_user]
       = (Inl TokenExpiredException, [example_user])
   \<and> TokenExpiredException \<noteq> WrongPinException"
proof -
  have h1: "User_find_token ''T'' [example_user] = Some example_user"
    by (simp add: User_find_token_def example_user_def)
  have h2: "attempts example_user \<le> max_attempts example_conf"
    by (simp add: example_user_def example_conf_def)
  have h3: "''1234'' = pin example_user" by (simp add: example_user_def)
  have h4: "0 \<le> token_expiration example_conf \<and> token_expiration example_conf < 2 ^ 34"
    by (simp add: example_conf_def)
  have h5: "3601000000 - updated_at example_user > token_expiration example_conf * 1000000"
    by (simp add: example_user_def example_conf_def)
  from failed_redemption_leaves_store
    [of example_conf 3601000000 "''T''" "''1234''" "''new''" "[example_user]"]
  have "priv_set_password example_conf 3601000000 ''T'' ''1234'' ''new'' [example_user]
      = (Inl TokenExpiredException, [example_user])"
    using h1 h2 h3 h4 h5 by blast
  with h1 h2 h4 h5 show ?thesis by simp
qed

text \<open>
  Claim C9. The PIN check is performed before the expiry check. For a record whose
  window has elapsed (by the float test of the code, or counted exactly in
  microseconds): a redemption attempt with a wrong PIN, on a record that is not
  locked, fails with \<open>WrongPinException\<close> and increments \<open>attempts\<close>; a record that is
  locked reports \<open>AccountLocked\<close>, not \<open>TokenExpiredException\<close>; and wrong PINs, all
  tried after expiry, accumulate until the record is locked: after
  \<open>max_attempts + 1 - attempts\<close> of them \<open>attempts\<close> is \<open>max_attempts + 1\<close>, and every
  further attempt reports \<open>AccountLocked\<close>.
\<close>

theorem pin_check_precedes_expiry_check:
  assumes "User_find_token tok st = Some u"
    and "total_seconds (now - updated_at u) > of_int (token_expiration conf)
      \<or> now - updated_at u > token_expiration conf * 1000000"
  shows "(attempts u \<le> max_attempts conf \<and> p \<noteq> pin u \<longrightarrow>
            priv_set_password conf now tok p new_password st
              = (Inl WrongPinException, priv_increase_attempts u st)
            \<and> User_find_token tok (priv_increase_attempts u st)
                = Some (u\<lparr>attempts := attempts u + 1\<rparr>))
    \<and> (attempts u > max_attempts conf \<longrightarrow>
            priv_set_password conf now tok p new_password st = (Inl AccountLocked, st))
    \<and> (attempts u \<le> max_attempts conf + 1
          \<and> length as = nat (max_attempts conf + 1 - attempts u)
          \<and> (\<forall>(now', p', pw') \<in> set as.
                p' \<noteq> pin u
                \<and> (total_seconds (now' - updated_at u) > of_int (token_expiration conf)
                    \<or> now' - updated_at u > token_expiration conf * 1000000)) \<longrightarrow>
            fst (redeem_seq conf tok as st) = replicate (length as) (Inl WrongPinException)
            \<and> User_find_token tok (snd (redeem_seq conf tok as st))
                = Some (u\<lparr>attempts := max_attempts conf + 1\<rparr>)
            \<and> priv_set_password conf now tok p new_password (snd (redeem_seq conf tok as st))
                = (Inl AccountLocked, snd (redeem_seq conf tok as st)))"
proof -
  have a: "attempts u \<le> max_attempts conf \<and> p \<noteq> pin u \<longrightarrow>
      priv_set_password conf now tok p new_password st
        = (Inl WrongPinException, priv_increase_attempts u st)
      \<and> User_find_token tok (priv_increase_attempts u st)
          = Some (u\<lparr>attempts := attempts u + 1\<rparr>)"
    using assms(1) by (simp add: set_password_wrong_pin find_token_increase_attempts)
  have b: "attempts u > max_attempts conf \<longrightarrow>
      priv_set_password conf now tok p new_password st = (Inl AccountLocked, st)"
    using assms(1) by (simp add: set_password_locked)
  have c: "fst (redeem_seq conf tok as st) = replicate (length as) (Inl WrongPinException)
      \<and> User_find_token tok (snd (redeem_seq conf tok as st))
          = Some (u\<lparr>attempts := max_attempts conf + 1\<rparr>)
      \<and> priv_set_password conf now tok p new_password (snd (redeem_seq conf tok as st))
          = (Inl AccountLocked, snd (redeem_seq conf tok as st))"
    if le: "attempts u \<le> max_attempts conf + 1"
      and len: "length as = nat (max_attempts conf + 1 - attempts u)"
      and wrong: "\<forall>(now', p', pw') \<in> set as.
        p' \<noteq> pin u
        \<and> (total_seconds (now' - updated_at u) > of_int (token_expiration conf)
            \<or> now' - updated_at u > token_expiration conf * 1000000)"
  proof -
    from wrong have w: "\<forall>(now', p', pw') \<in> set as. p' \<noteq> pin u" by auto
    from le len have bound: "attempts u + int (length as) \<le> max_attempts conf + 1" by simp
    from le len have total: "attempts u + int (length as) = max_attempts conf + 1" by simp
    from redeem_seq_wrong_pins [OF assms(1) w bound] total
    have res: "fst (redeem_seq conf tok as st) = replicate (length as) (Inl WrongPinException)"
      and f: "User_find_token tok (snd (redeem_seq conf tok as st))
        = Some (u\<lparr>attempts := max_attempts conf + 1\<rparr>)"
      by simp_all
    have "attempts (u\<lparr>attempts := max_attempts conf + 1\<rparr>) > max_attempts conf" by simp
    with f have "priv_set_password conf now tok p new_password (snd (redeem_seq conf tok as st))
        = (Inl AccountLocked, snd (redeem_seq conf tok as st))"
      by (rule set_password_locked)
    with res f show ?thesis by simp
  qed
  from a b c show ?thesis by blast
qed

theorem pin_check_precedes_expiry_check_witness:
  "User_find_token ''T'' [example_user\<lparr>attempts := 2\<rparr>] = Some (example_user\<lparr>attempts := 2\<rparr>)
   \<and> 3601000000 - updated_at (example_user\<lparr>attempts := 2\<rparr>)
        > token_expiration example_conf * 1000000
   \<and> total_seconds (3601000000 - updated_at (example_user\<lparr>attempts := 2\<rparr>))
        > of_int (token_expiration example_conf)
   \<and> priv_set_password example_conf 3601000000 ''T'' ''0000'' ''new''
        [example_user\<lparr>attempts := 2\<rparr>]
      = (Inl WrongPinException, [example_user\<lparr>attempts := 3\<rparr>])
   \<and> fst (redeem_seq example_conf ''T''
        [(3601000000, ''0000'', ''x''), (3602000000, ''1111'', ''y'')]
        [example_user\<lparr>attempts := 2\<rparr>])
      = [Inl WrongPinException, Inl WrongPinException]
   \<and> priv_set_password example_conf 3601000000 ''T'' ''0000'' ''new''
        (snd (redeem_seq example_conf ''T''
          [(3601000000, ''0000'', ''x''), (3602000000, ''1111'', ''y'')]
          [example_user\<lparr>attempts := 2\<rparr>]))
      = (Inl AccountLocked, [example_user\<lparr>attempts := 4\<rparr>])"
proof -
  let ?u = "example_user\<lparr>attempts := 2\<rparr>"
  let ?as = "[(3601000000, ''0000'', ''x''), (3602000000, ''1111'', ''y'')]
    :: (int \<times> string \<times> string) list"
  have h1: "User_find_token ''T'' [?u] = Some ?u"
    by (simp add: User_find_token_def example_user_def)
  have x: "3601000000 - updated_at ?u > token_expiration example_conf * 1000000"
    by (simp add: example_user_def example_conf_def)
  have n: "0 \<le> token_expiration example_conf" "token_expiration example_conf < 2 ^ 34"
    by (simp_all add: example_conf_def)
  have f: "total_seconds (3601000000 - updated_at ?u) > of_int (token_expiration example_conf)"
    using n x by (rule total_seconds_past)
  then have h2: "total_seconds (3601000000 - updated_at ?u) > of_int (token_expiration example_conf)
      \<or> 3601000000 - updated_at ?u > token_expiration example_conf * 1000000"
    by simp
  have g1: "attempts ?u \<le> max_attempts example_conf \<and> ''0000'' \<noteq> pin ?u"
    by (simp add: example_user_def example_conf_def)
  have g2: "attempts ?u \<le> max_attempts example_conf + 1
      \<and> length ?as = nat (max_attempts example_conf + 1 - attempts ?u)
      \<and> (\<forall>(now', p', pw') \<in> set ?as.
            p' \<noteq> pin ?u
            \<and> (total_seconds (now' - updated_at ?u) > of_int (token_expiration example_conf)
                \<or> now' - updated_at ?u > token_expiration example_conf * 1000000))"
    by (simp add: example_user_def example_conf_def)
  have s1: "priv_increase_attempts ?u [?u] = [example_user\<lparr>attempts := 3\<rparr>]"
    by (simp add: priv_increase_attempts_def)
  have s2: "snd (redeem_seq example_conf ''T'' ?as [?u]) = [example_user\<lparr>attempts := 4\<rparr>]"
    by (simp add: priv_set_password_def User_find_token_def priv_increase_attempts_def
        example_user_def example_conf_def)
  from pin_check_precedes_expiry_check [OF h1 h2, of "''0000''" "''new''" ?as] g1 g2
  have "priv_set_password example_conf 3601000000 ''T'' ''0000'' ''new'' [?u]
        = (Inl WrongPinException, priv_increase_attempts ?u [?u])
      \<and> fst (redeem_seq example_conf ''T'' ?as [?u])
          = replicate (length ?as) (Inl WrongPinException)
      \<and> priv_set_password example_conf 3601000000 ''T'' ''0000'' ''new''
          (snd (redeem_seq example_conf ''T'' ?as [?u]))
        = (Inl AccountLocked, snd (redeem_seq example_conf ''T'' ?as [?u]))"
    by blast
  with h1 x f s1 s2 show ?thesis by (simp add: numeral_eq_Suc)
qed

section \<open>Provisioning\<close>

text \<open>
  Claim C4, as stated, fails for provisioning: re-provisioning a \<open>user_id\<close> whose record
  has \<open>attempts = 2\<close> leaves a record with \<open>attempts = 0\<close>.
\<close>

theorem reprovision_resets_attempts_counterexample:
  "map_option attempts (User_find_user_id ''U'' [example_user\<lparr>attempts := 2\<rparr>]) = Some 2
   \<and> add example_conf 5 ''T2'' (provision_request ''admin'' (Some (JObj []))) ''U''
        [example_user\<lparr>attempts := 2\<rparr>]
      = (Inr (Response ''T2'' 200),
         [example_user\<lparr>token := ''T2'', updated_at := 5, attempts := 0\<rparr>])
   \<and> map_option attempts (User_find_user_id ''U''
        (snd (add example_conf 5 ''T2'' (provision_request ''admin'' (Some (JObj []))) ''U''
          [example_user\<lparr>attempts := 2\<rparr>]))) = Some 0"
  by (simp add: add_def provision_request_def priv_check_admin_token_def User_find_user_id_def
      update_timestamp_and_attempts_def example_user_def example_conf_def)

text \<open>
  Claim C4, amended. In a store that meets the data model's invariants, for every
  \<open>user_id\<close>, a redemption attempt (whatever its outcome) and the recording of a failed
  attempt never decrease \<open>attempts\<close> of the record of that \<open>user_id\<close>: a record found
  afterwards was there before, with \<open>attempts\<close> not greater. Provisioning does not
  preserve \<open>attempts\<close>: after every provisioning that answers 200 the record of the
  \<open>user_id\<close> has \<open>attempts = 0\<close>.
\<close>

theorem attempts_never_decrease_by_redemption:
  assumes "wf_store st"
  shows "(\<forall>u'. User_find_user_id uid (snd (priv_set_password conf now tok p new_password st))
              = Some u'
            \<longrightarrow> (\<exists>u. User_find_user_id uid st = Some u \<and> attempts u \<le> attempts u'))
    \<and> (\<forall>r u'. User_find_user_id uid (priv_increase_attempts r st) = Some u'
            \<longrightarrow> (\<exists>u. User_find_user_id uid st = Some u \<and> attempts u \<le> attempts u'))
    \<and> (\<forall>req new_token body st'.
          add conf now new_token req uid st = (Inr (Response body 200), st')
            \<longrightarrow> (\<exists>u'. User_find_user_id uid st' = Some u' \<and> attempts u' = 0))"
proof -
  from assms have du: "distinct (map user_id st)" by (simp add: wf_store_def)
  have inc: "\<exists>u. User_find_user_id uid st = Some u \<and> attempts u \<le> attempts u'"
    if "User_find_user_id uid (priv_increase_attempts r st) = Some u'" for r u'
    using that unfolding find_user_id_increase_attempts
    by (cases "User_find_user_id uid st") (auto split: if_splits)
  have del: "\<exists>u. User_find_user_id uid st = Some u \<and> attempts u \<le> attempts u'"
    if "User_find_user_id uid (remove1 r st) = Some u'" for r u'
    using that unfolding User_find_user_id_def find_remove1_distinct [OF du]
    by (auto split: if_splits)
  have red: "\<exists>u. User_find_user_id uid st = Some u \<and> attempts u \<le> attempts u'"
    if "User_find_user_id uid (snd (priv_set_password conf now tok p new_password st)) = Some u'"
    for u'
    using that set_password_cases [of conf now tok p new_password st] inc del
    by auto
  have prov: "\<exists>u'. User_find_user_id uid st' = Some u' \<and> attempts u' = 0"
    if ok: "add conf now new_token req uid st = (Inr (Response body 200), st')"
    for req new_token body st'
  proof (cases "User_find_user_id uid st")
    case None
    from add_ok_new [OF ok None] obtain p' pw where
      "st' = commit_add (new_User now uid new_token p' pw) st" by blast
    with None show ?thesis
      by (simp add: User_find_user_id_def commit_add_def find_snoc new_User_def)
  next
    case (Some user)
    from add_ok_existing [OF ok Some] obtain user2 where
      st': "st' = commit_update user
          (update_timestamp_and_attempts now (user2\<lparr>token := new_token\<rparr>)) st"
      and uid2: "user_id user2 = user_id user" by blast
    from Some have "user_id user = uid"
      unfolding User_find_user_id_def by (auto dest: find_Some_mem)
    with Some uid2 show ?thesis
      unfolding st' User_find_user_id_def
      by (simp add: find_commit_update update_timestamp_and_attempts_def)
  qed
  from inc red prov show ?thesis by blast
qed

theorem attempts_never_decrease_by_redemption_witness:
  "wf_store [example_user\<lparr>attempts := 2\<rparr>]
   \<and> User_find_user_id ''U''
        (snd (priv_set_password example_conf 0 ''T'' ''0000'' ''new''
          [example_user\<lparr>attempts := 2\<rparr>]))
      = Some (example_user\<lparr>attempts := 3\<rparr>)
   \<and> (\<exists>u. User_find_user_id ''U'' [example_user\<lparr>attempts := 2\<rparr>] = Some u \<and> attempts u \<le> 3)"
proof -
  have h: "wf_store [example_user\<lparr>attempts := 2\<rparr>]" by (simp add: wf_store_def)
  have f: "User_find_user_id ''U''
      (snd (priv_set_password example_conf 0 ''T'' ''0000'' ''new''
        [example_user\<lparr>attempts := 2\<rparr>]))
    = Some (example_user\<lparr>attempts := 3\<rparr>)"
    by (simp add: priv_set_password_def User_find_token_def User_find_user_id_def
        priv_increase_attempts_def example_user_def example_conf_def)
  from attempts_never_decrease_by_redemption
    [OF h, of "''U''" example_conf 0 "''T''" "''0000''" "''new''"] f
  have "\<exists>u. User_find_user_id ''U'' [example_user\<lparr>attempts := 2\<rparr>] = Some u
      \<and> attempts u \<le> attempts (example_user\<lparr>attempts := 3\<rparr>)"
    by blast
  with h f show ?thesis by simp
qed

text \<open>
  Claim C7. An authorised provisioning call with a JSON object as its body, for a
  \<open>user_id\<close> that already has a stored reset request, answers 200 with the freshly
  generated token and leaves that record with the new token, \<open>attempts = 0\<close>,
  \<open>updated_at\<close> set to the time of the call, \<open>pin\<close> and \<open>password\<close> set to the values
  the body supplies and kept at their prior values where the body omits them; the
  \<open>user_id\<close> of the record, the number of rows and the records of all other
  \<open>user_id\<close>s are unchanged.
\<close>

theorem reprovision_existing_record:
  assumes "map_of (headers req) ''x-auth-token'' = Some t" and "t \<noteq> []"
    and "priv_check_admin_token conf t = Inr True"
    and "data req = Some (JObj kvs)"
    and "User_find_user_id uid st = Some u"
  shows "fst (add conf now new_token req uid st) = Inr (Response new_token 200)
    \<and> User_find_user_id uid (snd (add conf now new_token req uid st))
        = Some \<lparr>user_id = user_id u, token = new_token,
                pin = (case map_of kvs ''pin'' of None \<Rightarrow> pin u | Some v \<Rightarrow> v),
                password = (case map_of kvs ''password'' of None \<Rightarrow> password u | Some v \<Rightarrow> v),
                attempts = 0, updated_at = now\<rparr>
    \<and> length (snd (add conf now new_token req uid st)) = length st
    \<and> (\<forall>uid'. uid' \<noteq> uid \<longrightarrow>
          User_find_user_id uid' (snd (add conf now new_token req uid st))
            = User_find_user_id uid' st)"
proof -
  let ?u' = "u\<lparr>pin := (case map_of kvs ''pin'' of None \<Rightarrow> pin u | Some v \<Rightarrow> v),
      password := (case map_of kvs ''password'' of None \<Rightarrow> password u | Some v \<Rightarrow> v),
      token := new_token, updated_at := now, attempts := 0\<rparr>"
  have run: "add conf now new_token req uid st
      = (Inr (Response new_token 200), commit_update u ?u' st)"
    using assms by (rule add_existing_object)
  from assms(5) have uid: "user_id u = uid"
    unfolding User_find_user_id_def by (auto dest: find_Some_mem)
  have rec: "?u' = \<lparr>user_id = user_id u, token = new_token,
      pin = (case map_of kvs ''pin'' of None \<Rightarrow> pin u | Some v \<Rightarrow> v),
      password = (case map_of kvs ''password'' of None \<Rightarrow> password u | Some v \<Rightarrow> v),
      attempts = 0, updated_at = now\<rparr>"
    by simp
  have same: "User_find_user_id uid (commit_update u ?u' st) = Some ?u'"
    using assms(5) unfolding User_find_user_id_def by (simp add: find_commit_update)
  have other: "User_find_user_id uid' (commit_update u ?u' st) = User_find_user_id uid' st"
    if "uid' \<noteq> uid" for uid'
  proof -
    from that uid have "\<not> (\<lambda>r. user_id r = uid') u" by simp
    then show ?thesis unfolding User_find_user_id_def
      by (simp add: find_commit_update find_not_sat)
  qed
  from run same other show ?thesis
    unfolding rec by (simp add: length_commit_update)
qed

theorem reprovision_existing_record_witness:
  "map_of (headers (provision_request ''admin'' (Some (JObj [(''pin'', ''9876'')])))) ''x-auth-token''
      = Some ''admin''
   \<and> priv_check_admin_token example_conf ''admin'' = Inr True
   \<and> User_find_user_id ''U'' [example_user\<lparr>attempts := 2\<rparr>] = Some (example_user\<lparr>attempts := 2\<rparr>)
   \<and> fst (add example_conf 5 ''T2'' (provision_request ''admin'' (Some (JObj [(''pin'', ''9876'')])))
        ''U'' [example_user\<lparr>attempts := 2\<rparr>]) = Inr (Response ''T2'' 200)
   \<and> User_find_user_id ''U''
        (snd (add example_conf 5 ''T2'' (provision_request ''admin'' (Some (JObj [(''pin'', ''9876'')])))
          ''U'' [example_user\<lparr>attempts := 2\<rparr>]))
      = Some \<lparr>user_id = ''U'', token = ''T2'', pin = ''9876'', password = ''P'',
              attempts = 0, updated_at = 5\<rparr>"
proof -
  let ?req = "provision_request ''admin'' (Some (JObj [(''pin'', ''9876'')]))"
  let ?u = "example_user\<lparr>attempts := 2\<rparr>"
  have h1: "map_of (headers ?req) ''x-auth-token'' = Some ''admin''"
    by (simp add: provision_request_def)
  have h2: "''admin'' \<noteq> []" by simp
  have h3: "priv_check_admin_token example_conf ''admin'' = Inr True"
    by (simp add: priv_check_admin_token_def example_conf_def)
  have h4: "data ?req = Some (JObj [(''pin'', ''9876'')])"
    by (simp add: provision_request_def)
  have h5: "User_find_user_id ''U'' [?u] = Some ?u"
    by (simp add: User_find_user_id_def example_user_def)
  from reprovision_existing_record [OF h1 h2 h3 h4 h5, of 5 "''T2''"] h1 h3 h5
  show ?thesis by (simp add: example_user_def)
qed

text \<open>
  Claim C8. The provisioning operation answers 401 \<open>Unauthorized\<close> when the request
  has no \<open>x-auth-token\<close> header (or an empty one), and 403 \<open>Forbidden\<close> when the identity
  provider rejects the supplied token (\<open>sess.get_token()\<close> raises \<open>Unauthorized\<close>, so
  \<open>_check_admin_token\<close> returns \<open>False\<close>); in each case the store is returned as it
  was, whatever the body and the \<open>user_id\<close>.
\<close>

theorem provision_rejects_missing_or_bad_credential:
  "(map_of (headers req) ''x-auth-token'' = None \<or> map_of (headers req) ''x-auth-token'' = Some []
      \<longrightarrow> add conf now new_token req uid st = (Inr (Response ''Unauthorized'' 401), st))
   \<and> (\<forall>t. map_of (headers req) ''x-auth-token'' = Some t \<and> t \<noteq> []
          \<and> sess_get_token conf t = RaisesUnauthorized
      \<longrightarrow> priv_check_admin_token conf t = Inr False
        \<and> add conf now new_token req uid st = (Inr (Response ''Forbidden'' 403), st))"
  by (auto simp: add_def priv_check_admin_token_def)

theorem provision_rejects_missing_or_bad_credential_witness:
  "map_of (headers \<lparr>args = [], form = [], headers = [], data = Some (JObj [])\<rparr>) ''x-auth-token''
      = None
   \<and> add example_conf 5 ''T2'' \<lparr>args = [], form = [], headers = [], data = Some (JObj [])\<rparr> ''U''
        [example_user]
      = (Inr (Response ''Unauthorized'' 401), [example_user])
   \<and> sess_get_token example_conf ''guess'' = RaisesUnauthorized
   \<and> add example_conf 5 ''T2''
        (provision_request ''guess'' (Some (JObj [(''pin'', ''1''), (''password'', ''2'')]))) ''V''
        [example_user]
      = (Inr (Response ''Forbidden'' 403), [example_user])"
proof -
  let ?r1 = "\<lparr>args = [], form = [], headers = [], data = Some (JObj [])\<rparr>"
  let ?r2 = "provision_request ''guess'' (Some (JObj [(''pin'', ''1''), (''password'', ''2'')]))"
  have h1: "map_of (headers ?r1) ''x-auth-token'' = None" by simp
  have h2: "map_of (headers ?r2) ''x-auth-token'' = Some ''guess'' \<and> ''guess'' \<noteq> []
      \<and> sess_get_token example_conf ''guess'' = RaisesUnauthorized"
    by (simp add: provision_request_def example_conf_def)
  from provision_rejects_missing_or_bad_credential
    [of ?r1 example_conf 5 "''T2''" "''U''" "[example_user]"] h1
  have a: "add example_conf 5 ''T2'' ?r1 ''U'' [example_user]
      = (Inr (Response ''Unauthorized'' 401), [example_user])"
    by blast
  from provision_rejects_missing_or_bad_credential
    [of ?r2 example_conf 5 "''T2''" "''V''" "[example_user]"] h2
  have b: "add example_conf 5 ''T2'' ?r2 ''V'' [example_user]
      = (Inr (Response ''Forbidden'' 403), [example_user])"
    by blast
  from h1 h2 a b show ?thesis by simp
qed

text \<open>
  Claim C10. An authorised provisioning call for a \<open>user_id\<close> that has no record raises
  an exception the handler does not catch, instead of answering, and returns the store
  as it was (no record is created), when the body is not valid JSON (\<open>ValueError\<close>),
  when it is an object without the key \<open>pin\<close> (\<open>KeyError\<close>), when it is an object with
  \<open>pin\<close> and without \<open>password\<close> (\<open>KeyError\<close>), and also when it is JSON but not an
  object (\<open>TypeError\<close>).
\<close>

theorem provision_new_user_incomplete_body:
  assumes "map_of (headers req) ''x-auth-token'' = Some t" and "t \<noteq> []"
    and "priv_check_admin_token conf t = Inr True"
    and "User_find_user_id uid st = None"
  shows "(data req = None \<longrightarrow> add conf now new_token req uid st = (Inl ValueError, st))
    \<and> (\<forall>kvs. data req = Some (JObj kvs) \<and> ''pin'' \<notin> fst ` set kvs
          \<longrightarrow> add conf now new_token req uid st = (Inl (KeyError ''pin''), st))
    \<and> (\<forall>kvs. data req = Some (JObj kvs) \<and> ''pin'' \<in> fst ` set kvs
            \<and> ''password'' \<notin> fst ` set kvs
          \<longrightarrow> add conf now new_token req uid st = (Inl (KeyError ''password''), st))
    \<and> (\<forall>j. data req = Some j \<and> (\<forall>kvs. j \<noteq> JObj kvs)
          \<longrightarrow> add conf now new_token req uid st = (Inl TypeError, st))"
proof -
  have a: "data req = None \<longrightarrow> add conf now new_token req uid st = (Inl ValueError, st)"
    unfolding add_authorised [OF assms(1-3)] by simp
  have b: "add conf now new_token req uid st = (Inl (KeyError ''pin''), st)"
    if "data req = Some (JObj kvs)" and "''pin'' \<notin> fst ` set kvs" for kvs
  proof -
    from that(2) have "map_of kvs ''pin'' = None" by (simp add: map_of_eq_None_iff)
    with that(1) assms(4) show ?thesis
      unfolding add_authorised [OF assms(1-3)] by simp
  qed
  have c: "add conf now new_token req uid st = (Inl (KeyError ''password''), st)"
    if "data req = Some (JObj kvs)" and "''pin'' \<in> fst ` set kvs"
      and "''password'' \<notin> fst ` set kvs" for kvs
  proof -
    from that(3) have n: "map_of kvs ''password'' = None" by (simp add: map_of_eq_None_iff)
    from that(2) obtain v where "map_of kvs ''pin'' = Some v"
      by (cases "map_of kvs ''pin''") (auto simp: map_of_eq_None_iff)
    with n that(1) assms(4) show ?thesis
      unfolding add_authorised [OF assms(1-3)] by simp
  qed
  have d: "add conf now new_token req uid st = (Inl TypeError, st)"
    if "data req = Some j" and "\<forall>kvs. j \<noteq> JObj kvs" for j
    using that assms(4) unfolding add_authorised [OF assms(1-3)]
    by (cases j) simp_all
  from a b c d show ?thesis by blast
qed

theorem provision_new_user_incomplete_body_witness:
  "map_of (headers (provision_request ''admin'' (Some (JObj [(''pin'', ''9876'')])))) ''x-auth-token''
      = Some ''admin''
   \<and> priv_check_admin_token example_conf ''admin'' = Inr True
   \<and> User_find_user_id ''V'' [example_user] = None
   \<and> ''pin'' \<in> fst ` set [(''pin'', ''9876'')] \<and> ''password'' \<notin> fst ` set [(''pin'', ''9876'')]
   \<and> add example_conf 5 ''T2'' (provision_request ''admin'' (Some (JObj [(''pin'', ''9876'')])))
        ''V'' [example_user]
      = (Inl (KeyError ''password''), [example_user])"
proof -
  let ?req = "provision_request ''admin'' (Some (JObj [(''pin'', ''9876'')]))"
  have h1: "map_of (headers ?req) ''x-auth-token'' = Some ''admin''"
    by (simp add: provision_request_def)
  have h2: "''admin'' \<noteq> []" by simp
  have h3: "priv_check_admin_token example_conf ''admin'' = Inr True"
    by (simp add: priv_check_admin_token_def example_conf_def)
  have h4: "User_find_user_id ''V'' [example_user] = None"
    by (simp add: User_find_user_id_def example_user_def)
  have g: "data ?req = Some (JObj [(''pin'', ''9876'')])
      \<and> ''pin'' \<in> fst ` set [(''pin'', ''9876'')] \<and> ''password'' \<notin> fst ` set [(''pin'', ''9876'')]"
    by (simp add: provision_request_def)
  from provision_new_user_incomplete_body [OF h1 h2 h3 h4, of 5 "''T2''"] g
  have "add example_conf 5 ''T2'' ?req ''V'' [example_user]
      = (Inl (KeyError ''password''), [example_user])"
    by blast
  with h1 h3 h4 g show ?thesis by simp
qed

end
